theory Spec2Isabelle
  imports Complex_Main
begin

section \<open>Data quality rule engine: cells, null sentinels and the audit log\<close>

text \<open>
  The development follows \<^verbatim>\<open>src/modules/dq.py\<close>. Datasets are loaded with
  \<^verbatim>\<open>dtype=str, keep_default_na=False\<close>, so every cell is a Python string: a cell is
  a \<^typ>\<open>string\<close>, \<^verbatim>\<open>astype(str)\<close> is the identity and \<^verbatim>\<open>isna()\<close> is false
  everywhere. Characters are ASCII; the case maps leave every other character alone.
  Scores are Python floats; they are modelled as exact reals, and \<^verbatim>\<open>round(x, 2)\<close> as
  rounding half to even at two decimals. Binary representation error is outside the
  model.
\<close>

type_synonym cell = string

subsection \<open>Python string primitives\<close>

definition WHITESPACE :: "char list" where
  "WHITESPACE =
     [CHR 0x09, CHR 0x0A, CHR 0x0B, CHR 0x0C, CHR 0x0D, CHR 0x1C, CHR 0x1D, CHR 0x1E, CHR 0x1F,
      CHR '' '']"

definition py_isspace :: "char \<Rightarrow> bool" where
  "py_isspace c = (c \<in> set WHITESPACE)"

definition py_strip :: "string \<Rightarrow> string" where
  "py_strip s = rev (dropWhile py_isspace (rev (dropWhile py_isspace s)))"

definition UPPERCASE :: "char list" where
  "UPPERCASE = ''ABCDEFGHIJKLMNOPQRSTUVWXYZ''"

definition LOWERCASE :: "char list" where
  "LOWERCASE = ''abcdefghijklmnopqrstuvwxyz''"

definition DIGITS :: "char list" where
  "DIGITS = ''0123456789''"

definition is_upper_char :: "char \<Rightarrow> bool" where
  "is_upper_char c = (c \<in> set UPPERCASE)"

definition is_lower_char :: "char \<Rightarrow> bool" where
  "is_lower_char c = (c \<in> set LOWERCASE)"

definition is_digit_char :: "char \<Rightarrow> bool" where
  "is_digit_char c = (c \<in> set DIGITS)"

definition lower_char :: "char \<Rightarrow> char" where
  "lower_char c = (case map_of (zip UPPERCASE LOWERCASE) c of Some d \<Rightarrow> d | None \<Rightarrow> c)"

definition upper_char :: "char \<Rightarrow> char" where
  "upper_char c = (case map_of (zip LOWERCASE UPPERCASE) c of Some d \<Rightarrow> d | None \<Rightarrow> c)"

definition py_lower :: "string \<Rightarrow> string" where
  "py_lower s = map lower_char s"

definition py_upper :: "string \<Rightarrow> string" where
  "py_upper s = map upper_char s"

text \<open>\<^verbatim>\<open>str.title()\<close>: a letter that follows a letter is lowered, any other letter is raised.\<close>

fun title_from :: "bool \<Rightarrow> string \<Rightarrow> string" where
  "title_from prev_cased [] = []"
| "title_from prev_cased (c # cs) =
     (if is_upper_char c \<or> is_lower_char c
      then (if prev_cased then lower_char c else upper_char c) # title_from True cs
      else c # title_from False cs)"

definition py_title :: "string \<Rightarrow> string" where
  "py_title s = title_from False s"

subsection \<open>The null-sentinel vocabulary\<close>

definition NULL_SENTINELS :: "string list" where
  "NULL_SENTINELS =
     ['''', ''nan'', ''none'', ''null'', ''na'', ''n/a'', ''n.a.'', ''nil'', ''missing'', ''#n/a'']"

definition isin :: "string \<Rightarrow> string list \<Rightarrow> bool" where
  "isin v vs = (v \<in> set vs)"

text \<open>A Series is a column: the index labels with the cell stored under each.\<close>

type_synonym series = "(nat \<times> cell) list"

definition series_values :: "series \<Rightarrow> cell list" where
  "series_values s = map snd s"

definition series_labels :: "series \<Rightarrow> nat list" where
  "series_labels s = map fst s"

definition map_values :: "(cell \<Rightarrow> cell) \<Rightarrow> series \<Rightarrow> series" where
  "map_values f s = map (\<lambda>(i, v). (i, f v)) s"

subsection \<open>Rounding\<close>

definition round_half_even :: "real \<Rightarrow> int" where
  "round_half_even x =
     (let f = \<lfloor>x\<rfloor>; d = x - of_int f
      in if d < 1 / 2 then f else if 1 / 2 < d then f + 1 else if even f then f else f + 1)"

definition round2 :: "real \<Rightarrow> real" where
  "round2 x = of_int (round_half_even (x * 100)) / 100"

subsection \<open>Rule labels and issue records\<close>

text \<open>
  Rule names and expected-value texts are f-strings in the source; each format is one
  constructor carrying the interpolated values.
\<close>

datatype rule_label =
    Rule_Name string
  | Minimum_Length_Label int
  | Data_Type_Label string
  | Numeric_Range_Label real real
  | Regex_Label string
  | Length_Check_Label int
  | Format_Check_Label string
  | Normalize_Date_Label string
  | Replace_Null_Label string

datatype expected_text =
    Expected string
  | Expected_Min_Length int
  | Expected_Type string
  | Expected_Date string
  | Expected_Between real real
  | Expected_One_Of "string list" bool
  | Expected_Matches string
  | Expected_Max_Length int
  | Expected_Format string
  | Expected_Cleaned string

record annex_row =
  Row_Number :: nat
  Column_Name :: string
  Rule_Applied :: rule_label
  Issue_Type :: string
  Original_Value :: string
  Expected_Value :: expected_text
  Dimension :: string

definition annex_row_of ::
  "nat \<Rightarrow> string \<Rightarrow> rule_label \<Rightarrow> string \<Rightarrow> string \<Rightarrow> expected_text \<Rightarrow> string \<Rightarrow> annex_row" where
  "annex_row_of idx col rule issue orig expected dimension =
     \<lparr>Row_Number = idx + 2, Column_Name = col, Rule_Applied = rule, Issue_Type = issue,
      Original_Value = orig, Expected_Value = expected, Dimension = dimension\<rparr>"

subsection \<open>The rule execution log\<close>

record log_entry =
  log_Dimension :: string
  log_Column :: string
  log_Rule :: rule_label
  log_Evaluated :: int
  log_Failed :: int
  log_Passed :: int
  log_Score_pct :: "real option"
  log_Severity :: string
  log_Issue_Type :: string

definition ISSUE_TYPE_MAP :: "string \<Rightarrow> string" where
  "ISSUE_TYPE_MAP dimension =
     (if dimension = ''Completeness'' then ''Missing Values''
      else if dimension = ''Validity'' then ''Invalid Format''
      else if dimension = ''Uniqueness'' then ''Duplicate Records''
      else if dimension = ''Standardization'' then ''Non-Standard Values''
      else dimension)"

text \<open>The module-level list \<^verbatim>\<open>_RULE_EXEC_LOG\<close> is threaded through as a value.\<close>

definition log_rule ::
  "string \<Rightarrow> string \<Rightarrow> rule_label \<Rightarrow> int \<Rightarrow> int \<Rightarrow> log_entry list \<Rightarrow> log_entry list" where
  "log_rule dimension column rule evaluated failed exec_log =
     (let score_pct =
            (if evaluated > 0
             then Some (round2 (of_int (evaluated - failed) / of_int evaluated * 100))
             else None);
          severity =
            (case score_pct of
               None \<Rightarrow> ''Pass''
             | Some p \<Rightarrow>
                 if p < 50 then ''Critical'' else if p < 70 then ''High''
                 else if p < 85 then ''Medium'' else if p < 95 then ''Low'' else ''Pass'')
      in exec_log @
         [\<lparr>log_Dimension = dimension, log_Column = column, log_Rule = rule,
           log_Evaluated = evaluated, log_Failed = failed, log_Passed = evaluated - failed,
           log_Score_pct = score_pct, log_Severity = severity,
           log_Issue_Type = ISSUE_TYPE_MAP dimension\<rparr>])"

subsection \<open>Rule configuration\<close>

text \<open>
  A criteria-builder entry is \<^verbatim>\<open>{"column": ..., "rule": ..., "config": {...}}\<close>. The
  config dictionary has optional keys; an absent key is \<open>None\<close>.
\<close>

record rule_config =
  cfg_min_length :: "int option"
  cfg_min_length_val :: "int option"
  cfg_data_type :: "string option"
  cfg_date_fmt :: "string option"
  cfg_range_min :: "real option"
  cfg_range_max :: "real option"
  cfg_allowed_values_str :: "string option"
  cfg_allowed_values :: "string option"
  cfg_regex :: "string option"
  cfg_custom_regex :: "string option"
  cfg_allowed_chars_pattern :: "string option"
  cfg_max_length_val :: "int option"
  cfg_format_pattern :: "string option"
  cfg_date_target_fmt :: "string option"
  cfg_null_default :: "string option"

definition empty_config :: rule_config where
  "empty_config =
     \<lparr>cfg_min_length = None, cfg_min_length_val = None, cfg_data_type = None,
      cfg_date_fmt = None, cfg_range_min = None, cfg_range_max = None,
      cfg_allowed_values_str = None, cfg_allowed_values = None, cfg_regex = None,
      cfg_custom_regex = None, cfg_allowed_chars_pattern = None, cfg_max_length_val = None,
      cfg_format_pattern = None, cfg_date_target_fmt = None, cfg_null_default = None\<rparr>"

record rule_entry =
  entry_column :: string
  entry_rule :: string
  entry_config :: rule_config

definition get_or :: "'a option \<Rightarrow> 'a \<Rightarrow> 'a" where
  "get_or v d = (case v of Some x \<Rightarrow> x | None \<Rightarrow> d)"

section \<open>Scoring engine\<close>






text \<open>
  The duplicate-records frame handed to the uniqueness scorer: \<^verbatim>\<open>None\<close>, or a frame
  that either carries a \<^verbatim>\<open>Row_Number\<close> column (one value per row) or does not (only
  its number of rows matters then).
\<close>

datatype dup_records = With_Row_Number "nat list" | Without_Row_Number nat

fun dup_empty :: "dup_records \<Rightarrow> bool" where
  "dup_empty (With_Row_Number rs) = (rs = [])"
| "dup_empty (Without_Row_Number n) = (n = 0)"

fun dup_count_of :: "dup_records \<Rightarrow> nat" where
  "dup_count_of (With_Row_Number rs) = card (set rs)"
| "dup_count_of (Without_Row_Number n) = n"

definition uniqueness_rule_label :: rule_label where
  "uniqueness_rule_label = Rule_Name ''Exact/Fuzzy Duplicate Check''"

definition compute_uniqueness_score ::
  "nat \<Rightarrow> dup_records option \<Rightarrow> log_entry list \<Rightarrow> real \<times> log_entry list" where
  "compute_uniqueness_score total_rows dup_records exec_log =
     (if total_rows = 0 then (0, exec_log)
      else if dup_records = None \<or> dup_empty (the dup_records)
      then (100, log_rule ''Uniqueness'' ''ALL'' uniqueness_rule_label (int total_rows) 0 exec_log)
      else
        let dup_count = min (dup_count_of (the dup_records)) total_rows
        in (round2 (max 0 ((real total_rows - real dup_count) / real total_rows * 100)),
            log_rule ''Uniqueness'' ''ALL'' uniqueness_rule_label (int total_rows) (int dup_count) exec_log))"

section \<open>Data frames and the Python libraries\<close>

text \<open>
  A frame is its ordered column names and its rows, each row an index label with one
  cell per column (pandas frames are rectangular). \<^verbatim>\<open>df[col]\<close> raises
  \<^verbatim>\<open>KeyError\<close> for an unknown column: \<open>get_col\<close> answers \<open>None\<close> there.
\<close>

record dataframe =
  df_columns :: "string list"
  df_rows :: "(nat \<times> cell list) list"

definition df_len :: "dataframe \<Rightarrow> nat" where
  "df_len df = length (df_rows df)"

definition df_empty :: "dataframe \<Rightarrow> bool" where
  "df_empty df = (df_rows df = [] \<or> df_columns df = [])"

fun column_pos :: "string list \<Rightarrow> string \<Rightarrow> nat option" where
  "column_pos [] c = None"
| "column_pos (x # xs) c = (if x = c then Some 0 else map_option Suc (column_pos xs c))"

definition get_col :: "dataframe \<Rightarrow> string \<Rightarrow> series option" where
  "get_col df col =
     (case column_pos (df_columns df) col of
        None \<Rightarrow> None
      | Some k \<Rightarrow> Some (map (\<lambda>(i, r). (i, r ! k)) (df_rows df)))"

datatype error = Key_Error string | Re_Error string

text \<open>
  The regular-expression engine, date parsing and numeric parsing are library code.
  They are parameters of the model: \<open>re_compile\<close> answers \<open>None\<close> where
  \<^verbatim>\<open>re.compile\<close> raises \<^verbatim>\<open>re.error\<close>; \<open>to_datetime\<close> is the \<^verbatim>\<open>notna()\<close> mask of
  \<^verbatim>\<open>pd.to_datetime(s, errors="coerce", dayfirst=True)\<close> at a position of the whole
  column (pandas infers one format per column); \<open>to_datetime_format\<close> is the same with
  an explicit format and answers \<open>None\<close> where pandas raises; \<open>to_numeric\<close> is
  \<^verbatim>\<open>pd.to_numeric(errors="coerce")\<close> with \<open>None\<close> for NaN; \<open>strftime\<close> is the
  formatted date at a position, \<open>None\<close> for NaT.
\<close>

record compiled =
  rx_fullmatch :: "string \<Rightarrow> bool"
  rx_match :: "string \<Rightarrow> bool"

record pylib =
  re_compile :: "string \<Rightarrow> compiled option"
  to_datetime :: "cell list \<Rightarrow> nat \<Rightarrow> bool"
  to_datetime_format :: "string \<Rightarrow> cell list \<Rightarrow> (nat \<Rightarrow> bool) option"
  to_numeric :: "cell \<Rightarrow> real option"
  strftime :: "string \<Rightarrow> cell list \<Rightarrow> nat \<Rightarrow> string option"

definition str_fullmatch :: "pylib \<Rightarrow> string \<Rightarrow> cell list \<Rightarrow> error + bool list" where
  "str_fullmatch lib pattern vs =
     (case re_compile lib pattern of
        None \<Rightarrow> Inl (Re_Error pattern)
      | Some rx \<Rightarrow> Inr (map (rx_fullmatch rx) vs))"

definition str_match :: "pylib \<Rightarrow> string \<Rightarrow> cell list \<Rightarrow> error + bool list" where
  "str_match lib pattern vs =
     (case re_compile lib pattern of
        None \<Rightarrow> Inl (Re_Error pattern)
      | Some rx \<Rightarrow> Inr (map (rx_match rx) vs))"

definition mask_or :: "bool list \<Rightarrow> bool list \<Rightarrow> bool list" where
  "mask_or a b = map (\<lambda>(x, y). x \<or> y) (zip a b)"

definition mask_at :: "(nat \<Rightarrow> bool) \<Rightarrow> 'a list \<Rightarrow> bool list" where
  "mask_at f vs = map f [0..<length vs]"

definition or_skip :: "bool list \<Rightarrow> error + bool list \<Rightarrow> error + bool list" where
  "or_skip skip r = (case r of Inl e \<Rightarrow> Inl e | Inr valid \<Rightarrow> Inr (mask_or skip valid))"

section \<open>Validity rules\<close>

definition bslash :: string where
  "bslash = [CHR 0x5C]"

definition NUMERIC_PATTERN :: string where
  "NUMERIC_PATTERN = ''-?'' @ bslash @ ''d+'' @ bslash @ ''.?'' @ bslash @ ''d*''"

definition INTEGER_PATTERN :: string where
  "INTEGER_PATTERN = ''-?'' @ bslash @ ''d+''"

definition FLOAT_PATTERN :: string where
  "FLOAT_PATTERN = ''-?'' @ bslash @ ''d+'' @ bslash @ ''.'' @ bslash @ ''d+''"

definition EMAIL_PATTERN :: string where
  "EMAIL_PATTERN =
     ''^[a-zA-Z0-9_.+'' @ bslash @ ''-]+@[a-zA-Z0-9'' @ bslash @ ''-]+'' @ bslash
     @ ''.[a-zA-Z0-9.'' @ bslash @ ''-]+$''"

definition PHONE_PATTERN :: string where
  "PHONE_PATTERN =
     ''^'' @ bslash @ ''+?[0-9]['' @ bslash @ ''d'' @ bslash @ ''s'' @ bslash @ ''-''
     @ bslash @ ''('' @ bslash @ '')]{6,14}$''"

definition PAN_PATTERN :: string where
  "PAN_PATTERN = ''^[A-Z]{5}[0-9]{4}[A-Z]$''"

definition ALLOWED_CHARS_DEFAULT :: string where
  "ALLOWED_CHARS_DEFAULT = ''^[a-zA-Z0-9'' @ bslash @ ''s]+$''"

definition FORMAT_DEFAULT :: string where
  "FORMAT_DEFAULT = ''^[a-zA-Z0-9]+$''"

definition is_empty_for_validity :: "cell list \<Rightarrow> bool list" where
  "is_empty_for_validity s = map (\<lambda>v. isin (py_lower v) NULL_SENTINELS) s"

definition rule_data_type :: "pylib \<Rightarrow> series \<Rightarrow> string \<Rightarrow> error + bool list" where
  "rule_data_type lib series expected =
     (let s = map py_strip (series_values series);
          skip = is_empty_for_validity s
      in if expected = ''numeric'' then or_skip skip (str_fullmatch lib NUMERIC_PATTERN s)
         else if expected = ''integer'' then or_skip skip (str_fullmatch lib INTEGER_PATTERN s)
         else if expected = ''float'' then or_skip skip (str_fullmatch lib FLOAT_PATTERN s)
         else if expected = ''date'' then Inr (mask_or skip (mask_at (to_datetime lib s) s))
         else Inr (replicate (length series) True))"

definition rule_email_format :: "pylib \<Rightarrow> series \<Rightarrow> error + bool list" where
  "rule_email_format lib series =
     (let s = map py_strip (series_values series)
      in or_skip (is_empty_for_validity s) (str_fullmatch lib EMAIL_PATTERN s))"

definition rule_phone_format :: "pylib \<Rightarrow> series \<Rightarrow> error + bool list" where
  "rule_phone_format lib series =
     (let s = map py_strip (series_values series)
      in or_skip (is_empty_for_validity s) (str_fullmatch lib PHONE_PATTERN s))"

definition rule_pan_format :: "pylib \<Rightarrow> series \<Rightarrow> error + bool list" where
  "rule_pan_format lib series =
     (let s = map (\<lambda>v. py_upper (py_strip v)) (series_values series);
          skip = is_empty_for_validity s
      in or_skip skip (str_fullmatch lib PAN_PATTERN s))"

definition rule_date_format :: "pylib \<Rightarrow> series \<Rightarrow> string \<Rightarrow> bool list" where
  "rule_date_format lib series fmt =
     (let s = map py_strip (series_values series);
          skip = is_empty_for_validity s;
          fallback = mask_or skip (mask_at (to_datetime lib s) s)
      in if fmt \<noteq> []
         then (case to_datetime_format lib fmt s of
                 Some valid \<Rightarrow> mask_or skip (mask_at valid s)
               | None \<Rightarrow> fallback)
         else fallback)"

definition rule_numeric_range :: "pylib \<Rightarrow> series \<Rightarrow> real \<Rightarrow> real \<Rightarrow> bool list" where
  "rule_numeric_range lib series min_val max_val =
     (let s = map py_strip (series_values series);
          skip = is_empty_for_validity s;
          in_range = map (\<lambda>v. case to_numeric lib v of
                                 None \<Rightarrow> False
                               | Some num \<Rightarrow> min_val \<le> num \<and> num \<le> max_val) s
      in mask_or skip in_range)"

definition rule_allowed_values :: "series \<Rightarrow> string list \<Rightarrow> bool list" where
  "rule_allowed_values series allowed =
     (let s = map py_strip (series_values series);
          skip = is_empty_for_validity s;
          allowed_lower = map (\<lambda>v. py_lower (py_strip v)) allowed
      in mask_or skip (map (\<lambda>v. isin (py_lower v) allowed_lower) s))"

definition rule_custom_regex :: "pylib \<Rightarrow> series \<Rightarrow> string \<Rightarrow> bool list" where
  "rule_custom_regex lib series pattern =
     (let s = map py_strip (series_values series);
          skip = is_empty_for_validity s
      in case str_fullmatch lib pattern s of
           Inr valid \<Rightarrow> mask_or skip valid
         | Inl e \<Rightarrow> replicate (length series) True)"

subsection \<open>The validity orchestrator\<close>

text \<open>
  \<^verbatim>\<open>execute_validity_rules\<close> appends to its local annexure list and to the global
  log; both travel as one state. \<open>failing\<close> is \<^verbatim>\<open>df.index[~mask]\<close> together with the
  cell \<^verbatim>\<open>s.loc[idx]\<close> stored under each failing label.
\<close>

type_synonym exec_state = "annex_row list \<times> log_entry list"

definition failing :: "series \<Rightarrow> bool list \<Rightarrow> series" where
  "failing s pass_mask = map fst (filter (\<lambda>(iv, m). \<not> m) (zip s pass_mask))"

definition emit_and_log ::
  "string \<Rightarrow> nat \<Rightarrow> string \<Rightarrow> rule_label \<Rightarrow> string \<Rightarrow> expected_text \<Rightarrow> series \<Rightarrow>
   exec_state \<Rightarrow> exec_state" where
  "emit_and_log dimension n_rows col label issue expected fails st =
     (fst st @ map (\<lambda>(idx, v). annex_row_of idx col label issue v expected dimension) fails,
      log_rule dimension col label (int n_rows) (int (length fails)) (snd st))"

fun split_on :: "char \<Rightarrow> string \<Rightarrow> string list" where
  "split_on c [] = [[]]"
| "split_on c (x # xs) =
     (if x = c then [] # split_on c xs
      else (case split_on c xs of [] \<Rightarrow> [[x]] | w # ws \<Rightarrow> (x # w) # ws))"

definition parse_allowed :: "string \<Rightarrow> string list" where
  "parse_allowed av_raw =
     (if av_raw \<noteq> [] then filter (\<lambda>v. v \<noteq> []) (map py_strip (split_on CHR '','' av_raw))
      else [])"

definition EN_DASH :: string where
  "EN_DASH = [CHR 0xE2, CHR 0x80, CHR 0x93]"

definition simple_rules ::
  "pylib \<Rightarrow> (string \<times> (series \<Rightarrow> error + bool list) \<times> string \<times> expected_text) list" where
  "simple_rules lib =
     [(''Email Format'', rule_email_format lib, ''Invalid Format'',
         Expected ''Valid email (user@domain.tld)''),
      (''Phone Format'', rule_phone_format lib, ''Invalid Format'',
         Expected (''Valid phone (7'' @ EN_DASH @ ''15 digits)'')),
      (''PAN Format'', rule_pan_format lib, ''Invalid Format'', Expected ''PAN: AAAAA9999A'')]"

definition run_simple ::
  "nat \<Rightarrow> string \<Rightarrow> series \<Rightarrow> string \<times> (series \<Rightarrow> error + bool list) \<times> string \<times> expected_text \<Rightarrow>
   exec_state \<Rightarrow> error + exec_state" where
  "run_simple n_rows col s rule st =
     (case rule of (rule_name, func, issue, expected) \<Rightarrow>
        (case func s of
           Inl e \<Rightarrow> Inl e
         | Inr pass_mask \<Rightarrow>
             Inr (emit_and_log ''Validity'' n_rows col (Rule_Name rule_name) issue expected
                    (failing s pass_mask) st)))"

definition run_data_type ::
  "pylib \<Rightarrow> nat \<Rightarrow> string \<Rightarrow> series \<Rightarrow> string \<Rightarrow> exec_state \<Rightarrow> error + exec_state" where
  "run_data_type lib n_rows col s exp_type st =
     (case rule_data_type lib s exp_type of
        Inl e \<Rightarrow> Inl e
      | Inr pass_mask \<Rightarrow>
          Inr (emit_and_log ''Validity'' n_rows col (Data_Type_Label exp_type) ''Invalid Format''
                 (Expected_Type exp_type) (failing s pass_mask) st))"

definition run_date_format ::
  "pylib \<Rightarrow> nat \<Rightarrow> string \<Rightarrow> series \<Rightarrow> string \<Rightarrow> exec_state \<Rightarrow> exec_state" where
  "run_date_format lib n_rows col s fmt st =
     emit_and_log ''Validity'' n_rows col (Rule_Name ''Date Format'') ''Invalid Format''
       (Expected_Date fmt) (failing s (rule_date_format lib s fmt)) st"

definition run_numeric_range ::
  "pylib \<Rightarrow> nat \<Rightarrow> string \<Rightarrow> series \<Rightarrow> real \<Rightarrow> real \<Rightarrow> exec_state \<Rightarrow> exec_state" where
  "run_numeric_range lib n_rows col s rmin rmax st =
     emit_and_log ''Validity'' n_rows col (Numeric_Range_Label rmin rmax) ''Invalid Format''
       (Expected_Between rmin rmax) (failing s (rule_numeric_range lib s rmin rmax)) st"

definition run_allowed_values ::
  "nat \<Rightarrow> string \<Rightarrow> series \<Rightarrow> string list \<Rightarrow> exec_state \<Rightarrow> exec_state" where
  "run_allowed_values n_rows col s allowed_list st =
     emit_and_log ''Validity'' n_rows col (Rule_Name ''Allowed Values'') ''Invalid Format''
       (Expected_One_Of (take 5 allowed_list) (5 < length allowed_list))
       (failing s (rule_allowed_values s allowed_list)) st"

definition run_custom_regex ::
  "pylib \<Rightarrow> nat \<Rightarrow> string \<Rightarrow> series \<Rightarrow> string \<Rightarrow> exec_state \<Rightarrow> exec_state" where
  "run_custom_regex lib n_rows col s pattern st =
     emit_and_log ''Validity'' n_rows col (Regex_Label (take 30 pattern)) ''Invalid Format''
       (Expected_Matches (take 50 pattern)) (failing s (rule_custom_regex lib s pattern)) st"

text \<open>One entry of the criteria-builder path (the body of its \<^verbatim>\<open>for\<close> loop).\<close>

definition validity_entry ::
  "pylib \<Rightarrow> dataframe \<Rightarrow> (string \<Rightarrow> string option) \<Rightarrow> real \<Rightarrow> real \<Rightarrow> string \<Rightarrow>
   rule_entry \<Rightarrow> exec_state \<Rightarrow> error + exec_state" where
  "validity_entry lib df dtype_map range_min range_max date_fmt entry st =
     (let col = entry_column entry; rule_name = entry_rule entry; cfg = entry_config entry;
          n_rows = df_len df
      in case get_col df col of
           None \<Rightarrow> Inr st
         | Some s \<Rightarrow>
             (case find (\<lambda>r. fst r = rule_name) (simple_rules lib) of
                Some rule \<Rightarrow> run_simple n_rows col s rule st
              | None \<Rightarrow>
                 if rule_name = ''Data Type Validation''
                 then run_data_type lib n_rows col s
                        (get_or (cfg_data_type cfg) (get_or (dtype_map col) ''string'')) st
                 else if rule_name = ''Date Format''
                 then Inr (run_date_format lib n_rows col s (get_or (cfg_date_fmt cfg) date_fmt) st)
                 else if rule_name = ''Numeric Range''
                 then Inr (run_numeric_range lib n_rows col s
                             (get_or (cfg_range_min cfg) range_min)
                             (get_or (cfg_range_max cfg) range_max) st)
                 else if rule_name = ''Allowed Values''
                 then (let av_raw = get_or (cfg_allowed_values_str cfg)
                                      (get_or (cfg_allowed_values cfg) '''');
                           allowed_list = parse_allowed av_raw
                       in if allowed_list \<noteq> []
                          then Inr (run_allowed_values n_rows col s allowed_list st)
                          else Inr st)
                 else if rule_name = ''Custom Regex''
                 then (let pattern = get_or (cfg_regex cfg) (get_or (cfg_custom_regex cfg) '''')
                       in if pattern \<noteq> []
                          then Inr (run_custom_regex lib n_rows col s pattern st)
                          else Inr st)
                 else if rule_name = ''Special Characters Not Allowed''
                 then (let pattern = get_or (cfg_allowed_chars_pattern cfg) ALLOWED_CHARS_DEFAULT
                       in case str_match lib pattern (series_values s) of
                            Inl e \<Rightarrow> Inl e
                          | Inr matched \<Rightarrow>
                              let pass_mask = mask_or matched (replicate (length s) False)
                              in Inr (emit_and_log ''Validity'' n_rows col
                                        (Rule_Name ''Special Characters Not Allowed'')
                                        ''Invalid Format'' (Expected ''Alphanumeric + spaces only'')
                                        (failing s pass_mask) st))
                 else if rule_name = ''Length Check''
                 then (let max_len = get_or (cfg_max_length_val cfg) 255;
                           pass_mask = mask_or (map (\<lambda>v. int (length v) \<le> max_len) (series_values s))
                                    (replicate (length s) False)
                       in Inr (emit_and_log ''Validity'' n_rows col (Length_Check_Label max_len)
                                 ''Invalid Format'' (Expected_Max_Length max_len)
                                 (failing s pass_mask) st))
                 else if rule_name = ''Format Check''
                 then (let pattern = get_or (cfg_format_pattern cfg) FORMAT_DEFAULT
                       in case str_match lib pattern (series_values s) of
                            Inl e \<Rightarrow> Inl e
                          | Inr matched \<Rightarrow>
                              let pass_mask = mask_or matched (replicate (length s) False)
                              in Inr (emit_and_log ''Validity'' n_rows col
                                        (Format_Check_Label (take 30 pattern))
                                        ''Invalid Format'' (Expected_Format (take 50 pattern))
                                        (failing s pass_mask) st))
                 else Inr st))"

text \<open>Running a loop body over a list, stopping at the first exception.\<close>

fun for_each :: "('a \<Rightarrow> 's \<Rightarrow> error + 's) \<Rightarrow> 'a list \<Rightarrow> 's \<Rightarrow> error + 's" where
  "for_each body [] st = Inr st"
| "for_each body (x # xs) st =
     (case body x st of Inl e \<Rightarrow> Inl e | Inr st' \<Rightarrow> for_each body xs st')"

text \<open>One column of the legacy path, where every selected rule runs on every column.\<close>

definition validity_legacy_column ::
  "pylib \<Rightarrow> dataframe \<Rightarrow> string list \<Rightarrow> (string \<Rightarrow> string option) \<Rightarrow> real \<Rightarrow> real \<Rightarrow>
   string list \<Rightarrow> string \<Rightarrow> string \<Rightarrow> string \<Rightarrow> exec_state \<Rightarrow> error + exec_state" where
  "validity_legacy_column lib df selected_rules dtype_map range_min range_max allowed_list
     custom_regex date_fmt col st =
     (let n_rows = df_len df
      in case get_col df col of
           None \<Rightarrow> Inr st
         | Some s \<Rightarrow>
            (case for_each (run_simple n_rows col s)
                    (filter (\<lambda>r. fst r \<in> set selected_rules) (simple_rules lib)) st of
               Inl e \<Rightarrow> Inl e
             | Inr st1 \<Rightarrow>
                (case (if ''Data Type Validation'' \<in> set selected_rules
                       then run_data_type lib n_rows col s (get_or (dtype_map col) ''string'') st1
                       else Inr st1) of
                   Inl e \<Rightarrow> Inl e
                 | Inr st2 \<Rightarrow>
                    let st3 = (if ''Date Format'' \<in> set selected_rules
                               then run_date_format lib n_rows col s date_fmt st2 else st2);
                        st4 = (if ''Numeric Range'' \<in> set selected_rules
                               then run_numeric_range lib n_rows col s range_min range_max st3
                               else st3);
                        st5 = (if ''Allowed Values'' \<in> set selected_rules \<and> allowed_list \<noteq> []
                               then run_allowed_values n_rows col s allowed_list st4 else st4);
                        st6 = (if ''Custom Regex'' \<in> set selected_rules \<and> custom_regex \<noteq> []
                               then run_custom_regex lib n_rows col s custom_regex st5 else st5)
                    in Inr st6)))"

text \<open>
  The result is the returned annexure list together with the log after the call; an
  uncaught exception is \<open>Inl\<close>.
\<close>

definition execute_validity_rules ::
  "pylib \<Rightarrow> dataframe \<Rightarrow> string list \<Rightarrow> string list \<Rightarrow> (string \<Rightarrow> string option) \<Rightarrow>
   real \<Rightarrow> real \<Rightarrow> string \<Rightarrow> string \<Rightarrow> string \<Rightarrow> rule_entry list option \<Rightarrow>
   log_entry list \<Rightarrow> error + exec_state" where
  "execute_validity_rules lib df selected_rules columns dtype_map range_min range_max
     allowed_values_str custom_regex date_fmt column_rule_map exec_log =
     (case column_rule_map of
        Some (e # es) \<Rightarrow>
          for_each (validity_entry lib df dtype_map range_min range_max date_fmt) (e # es)
            ([], exec_log)
      | _ \<Rightarrow>
          for_each (validity_legacy_column lib df selected_rules dtype_map range_min range_max
                      (parse_allowed allowed_values_str) custom_regex date_fmt)
            columns ([], exec_log))"

subsection \<open>A library instance for worked examples\<close>

text \<open>
  The worked examples need concrete answers from the regular-expression engine. This
  instance interprets the default pattern of the rule "Special Characters Not Allowed"
  (one or more ASCII letters, digits or whitespace characters, anchored) and reports the
  unterminated character set \<^verbatim>\<open>[\<close> as \<^verbatim>\<open>re.error\<close>, as Python does. The examples
  use no other pattern and no date or number parsing; those answers are placeholders.
\<close>

definition alnum_space_plus :: "string \<Rightarrow> bool" where
  "alnum_space_plus s =
     (s \<noteq> [] \<and> list_all (\<lambda>c. is_lower_char c \<or> is_upper_char c \<or> is_digit_char c \<or> py_isspace c) s)"

definition example_lib :: pylib where
  "example_lib =
     \<lparr>re_compile =
        (\<lambda>p. if p = ''['' then None
             else if p = ALLOWED_CHARS_DEFAULT
             then Some \<lparr>rx_fullmatch = alnum_space_plus, rx_match = alnum_space_plus\<rparr>
             else Some \<lparr>rx_fullmatch = (\<lambda>s. False), rx_match = (\<lambda>s. False)\<rparr>),
      to_datetime = (\<lambda>s i. False),
      to_datetime_format = (\<lambda>fmt s. None),
      to_numeric = (\<lambda>v. None),
      strftime = (\<lambda>fmt s i. None)\<rparr>"

definition names_frame :: dataframe where
  "names_frame =
     \<lparr>df_columns = [''name''],
      df_rows = [(0, [''Alice'']), (1, ['''']), (2, [''n/a'']), (3, [''missing''])]\<rparr>"

definition entry_for :: "string \<Rightarrow> string \<Rightarrow> rule_config \<Rightarrow> rule_entry" where
  "entry_for col rule cfg = \<lparr>entry_column = col, entry_rule = rule, entry_config = cfg\<rparr>"

section \<open>Standardization transforms\<close>

text \<open>Each transform returns the cleaned column and the mask \<^verbatim>\<open>original != cleaned\<close>.\<close>

definition neq_mask :: "series \<Rightarrow> series \<Rightarrow> bool list" where
  "neq_mask original cleaned = map (\<lambda>(a, b). snd a \<noteq> snd b) (zip original cleaned)"

text \<open>\<^verbatim>\<open>re.sub(r"\s+", " ", v)\<close>: every run of whitespace becomes one space.\<close>

fun collapse_spaces :: "bool \<Rightarrow> string \<Rightarrow> string" where
  "collapse_spaces in_run [] = []"
| "collapse_spaces in_run (c # cs) =
     (if py_isspace c
      then (if in_run then collapse_spaces True cs else CHR '' '' # collapse_spaces True cs)
      else c # collapse_spaces False cs)"

text \<open>\<^verbatim>\<open>re.sub(r"[^a-zA-Z0-9\s]", "", v)\<close>: only letters, digits and whitespace stay.\<close>

definition drop_special :: "string \<Rightarrow> string" where
  "drop_special v =
     filter (\<lambda>c. is_lower_char c \<or> is_upper_char c \<or> is_digit_char c \<or> py_isspace c) v"

definition std_trim_spaces :: "series \<Rightarrow> series \<times> bool list" where
  "std_trim_spaces series =
     (let original = series;
          cleaned = map_values py_strip original
      in (cleaned, neq_mask original cleaned))"

definition std_remove_extra_spaces :: "series \<Rightarrow> series \<times> bool list" where
  "std_remove_extra_spaces series =
     (let original = series;
          cleaned = map_values (\<lambda>v. collapse_spaces False (py_strip v)) original
      in (cleaned, neq_mask original cleaned))"

definition std_proper_case :: "series \<Rightarrow> series \<times> bool list" where
  "std_proper_case series =
     (let original = series;
          cleaned = map_values (\<lambda>v. py_title (py_strip v)) original
      in (cleaned, neq_mask original cleaned))"

definition std_lowercase :: "series \<Rightarrow> series \<times> bool list" where
  "std_lowercase series =
     (let original = series;
          cleaned = map_values (\<lambda>v. py_lower (py_strip v)) original
      in (cleaned, neq_mask original cleaned))"

definition std_uppercase :: "series \<Rightarrow> series \<times> bool list" where
  "std_uppercase series =
     (let original = series;
          cleaned = map_values (\<lambda>v. py_upper (py_strip v)) original
      in (cleaned, neq_mask original cleaned))"

definition std_remove_special_chars :: "series \<Rightarrow> series \<times> bool list" where
  "std_remove_special_chars series =
     (let original = series;
          cleaned = map_values (\<lambda>v. py_strip (drop_special v)) original
      in (cleaned, neq_mask original cleaned))"

definition std_normalize_date :: "pylib \<Rightarrow> series \<Rightarrow> string \<Rightarrow> series \<times> bool list" where
  "std_normalize_date lib series target_fmt =
     (let original = series;
          stripped = map py_strip (series_values original);
          cleaned = map (\<lambda>(k, (i, v)). (i, get_or (strftime lib target_fmt stripped k) v))
                      (enumerate 0 original)
      in (cleaned, neq_mask original cleaned))"

definition std_replace_null_default :: "series \<Rightarrow> string \<Rightarrow> series \<times> bool list" where
  "std_replace_null_default series default_value =
     (let original = series;
          s = map_values py_strip original;
          null_mask = map (\<lambda>(i, v). v = '''' \<or> py_lower v = ''nan'' \<or> py_lower v = ''none'' \<or> False) s;
          cleaned = map (\<lambda>((i, v), m). (i, if m then default_value else v)) (zip s null_mask)
      in (cleaned, null_mask))"

subsection \<open>The standardization orchestrator\<close>

definition set_col :: "dataframe \<Rightarrow> string \<Rightarrow> series \<Rightarrow> dataframe" where
  "set_col df col new_vals =
     (case column_pos (df_columns df) col of
        None \<Rightarrow> df
      | Some k \<Rightarrow>
          df\<lparr>df_rows := map (\<lambda>((i, r), (j, v)). (i, r[k := v])) (zip (df_rows df) new_vals)\<rparr>)"

type_synonym std_state = "dataframe \<times> annex_row list \<times> log_entry list"

text \<open>
  \<open>flagged\<close> lists, for every position whose changed-flag is set, the index label, the
  cell before the rule and the cell the rule produced.
\<close>

definition flagged :: "series \<Rightarrow> series \<Rightarrow> bool list \<Rightarrow> (nat \<times> cell \<times> cell) list" where
  "flagged s new_vals changed =
     map (\<lambda>((i, v), ((j, w), c)). (i, v, w))
       (filter (\<lambda>(a, (b, c)). c) (zip s (zip new_vals changed)))"

definition count_true :: "bool list \<Rightarrow> nat" where
  "count_true changed = length (filter (\<lambda>c. c) changed)"

definition apply_inline ::
  "nat \<Rightarrow> string \<Rightarrow> string \<Rightarrow> (series \<Rightarrow> series \<times> bool list) \<Rightarrow> std_state \<Rightarrow> std_state" where
  "apply_inline n_rows col rule_name func st =
     (case st of (cleaned, annexure, exec_log) \<Rightarrow>
        (case get_col cleaned col of
           None \<Rightarrow> st
         | Some s \<Rightarrow>
             (case func s of (new_vals, changed) \<Rightarrow>
                (set_col cleaned col new_vals,
                 annexure @
                   map (\<lambda>(idx, v, w).
                          annex_row_of idx col (Rule_Name rule_name) ''Non-Standard Values''
                            v (Expected_Cleaned w) ''Standardization'')
                     (flagged s new_vals changed),
                 log_rule ''Standardization'' col (Rule_Name rule_name) (int n_rows)
                   (int (count_true changed)) exec_log))))"

definition apply_norm_date ::
  "pylib \<Rightarrow> nat \<Rightarrow> string \<Rightarrow> string \<Rightarrow> std_state \<Rightarrow> std_state" where
  "apply_norm_date lib n_rows col fmt st =
     (case st of (cleaned, annexure, exec_log) \<Rightarrow>
        (case get_col cleaned col of
           None \<Rightarrow> st
         | Some s \<Rightarrow>
             (case std_normalize_date lib s fmt of (new_vals, changed) \<Rightarrow>
                (set_col cleaned col new_vals,
                 annexure @
                   map (\<lambda>(idx, v, w).
                          annex_row_of idx col (Normalize_Date_Label fmt) ''Non-Standard Values''
                            v (Expected_Cleaned w) ''Standardization'')
                     (flagged s new_vals changed),
                 log_rule ''Standardization'' col (Normalize_Date_Label fmt) (int n_rows)
                   (int (count_true changed)) exec_log))))"

definition apply_null_default ::
  "nat \<Rightarrow> string \<Rightarrow> string \<Rightarrow> std_state \<Rightarrow> std_state" where
  "apply_null_default n_rows col default_value st =
     (case st of (cleaned, annexure, exec_log) \<Rightarrow>
        (case get_col cleaned col of
           None \<Rightarrow> st
         | Some s \<Rightarrow>
             (case std_replace_null_default s default_value of (new_vals, changed) \<Rightarrow>
                (set_col cleaned col new_vals,
                 annexure @
                   map (\<lambda>(idx, v, w).
                          annex_row_of idx col (Replace_Null_Label default_value)
                            ''Non-Standard Values'' v (Expected_Cleaned default_value)
                            ''Standardization'')
                     (flagged s new_vals changed),
                 log_rule ''Standardization'' col (Replace_Null_Label default_value) (int n_rows)
                   (int (count_true changed)) exec_log))))"

definition inline_rules :: "(string \<times> (series \<Rightarrow> series \<times> bool list)) list" where
  "inline_rules =
     [(''Trim Spaces'', std_trim_spaces),
      (''Remove Extra Spaces'', std_remove_extra_spaces),
      (''Convert to Proper Case'', std_proper_case),
      (''Convert to Lowercase'', std_lowercase),
      (''Convert to Uppercase'', std_uppercase),
      (''Remove Special Characters'', std_remove_special_chars)]"

definition standardization_entry ::
  "pylib \<Rightarrow> nat \<Rightarrow> string \<Rightarrow> string \<Rightarrow> rule_entry \<Rightarrow> std_state \<Rightarrow> std_state" where
  "standardization_entry lib n_rows date_target_fmt null_default entry st =
     (let col = entry_column entry; rule_name = entry_rule entry; cfg = entry_config entry
      in if col \<notin> set (df_columns (fst st)) then st
         else case map_of inline_rules rule_name of
                Some func \<Rightarrow> apply_inline n_rows col rule_name func st
              | None \<Rightarrow>
                  if rule_name = ''Normalize Date Format''
                  then apply_norm_date lib n_rows col
                         (get_or (cfg_date_target_fmt cfg) date_target_fmt) st
                  else if rule_name = ''Replace Null with Default''
                  then apply_null_default n_rows col (get_or (cfg_null_default cfg) null_default) st
                  else st)"

definition standardization_legacy_column ::
  "pylib \<Rightarrow> nat \<Rightarrow> string list \<Rightarrow> string \<Rightarrow> string \<Rightarrow> string \<Rightarrow> std_state \<Rightarrow> std_state" where
  "standardization_legacy_column lib n_rows selected_rules date_target_fmt null_default col st =
     (if col \<notin> set (df_columns (fst st)) then st
      else
        let st1 = fold (\<lambda>(rule_name, func) acc. apply_inline n_rows col rule_name func acc)
                    (filter (\<lambda>r. fst r \<in> set selected_rules) inline_rules) st;
            st2 = (if ''Normalize Date Format'' \<in> set selected_rules
                   then apply_norm_date lib n_rows col date_target_fmt st1 else st1)
        in if ''Replace Null with Default'' \<in> set selected_rules
           then apply_null_default n_rows col null_default st2 else st2)"

definition execute_standardization_rules ::
  "pylib \<Rightarrow> dataframe \<Rightarrow> string list \<Rightarrow> string list \<Rightarrow> string \<Rightarrow> string \<Rightarrow>
   rule_entry list option \<Rightarrow> log_entry list \<Rightarrow> std_state" where
  "execute_standardization_rules lib df selected_rules columns date_target_fmt null_default
     column_rule_map exec_log =
     (case column_rule_map of
        Some (e # es) \<Rightarrow>
          fold (standardization_entry lib (df_len df) date_target_fmt null_default) (e # es)
            (df, [], exec_log)
      | _ \<Rightarrow>
          fold (standardization_legacy_column lib (df_len df) selected_rules date_target_fmt
                  null_default)
            columns (df, [], exec_log))"

section \<open>Exact duplicate detection\<close>

text \<open>
  A row of a duplicate-records frame. The source columns of the row are carried over
  unchanged by the code and are left out here; \<open>dup_Row_Number\<close> is the index label
  plus 2.
\<close>

record dup_row =
  dup_Row_Number :: nat
  Duplicate_Group_ID :: nat
  Duplicate_Type :: string
  Similarity_Score :: real

definition normalize_cell :: "cell \<Rightarrow> string" where
  "normalize_cell v = py_lower (py_strip v)"

text \<open>\<^verbatim>\<open>Series.unique()\<close>: the distinct values in order of first appearance.\<close>

fun unique_from :: "'a list \<Rightarrow> 'a list \<Rightarrow> 'a list" where
  "unique_from seen [] = []"
| "unique_from seen (x # xs) =
     (if x \<in> set seen then unique_from seen xs else x # unique_from (x # seen) xs)"

definition unique :: "'a list \<Rightarrow> 'a list" where
  "unique xs = unique_from [] xs"

fun index_of :: "'a list \<Rightarrow> 'a \<Rightarrow> nat" where
  "index_of [] v = 0"
| "index_of (x # xs) v = (if x = v then 0 else Suc (index_of xs v))"

text \<open>\<^verbatim>\<open>duplicated(keep=False)\<close>: the entries whose key occurs more than once.\<close>

definition duplicated :: "('a \<times> 'k) list \<Rightarrow> ('a \<times> 'k) list" where
  "duplicated keyed = filter (\<lambda>(a, k). 1 < length (filter (\<lambda>(b, k'). k' = k) keyed)) keyed"

definition exact_groups :: "string \<Rightarrow> (nat \<times> string) list \<Rightarrow> dup_row list" where
  "exact_groups dup_type groups =
     (let group_map = unique (map snd groups)
      in map (\<lambda>(idx, key).
                \<lparr>dup_Row_Number = idx + 2, Duplicate_Group_ID = index_of group_map key + 1,
                 Duplicate_Type = dup_type, Similarity_Score = 100\<rparr>)
           groups)"

definition detect_exact_duplicates_single :: "dataframe \<Rightarrow> string \<Rightarrow> error + dup_row list" where
  "detect_exact_duplicates_single df col =
     (case get_col df col of
        None \<Rightarrow> Inl (Key_Error col)
      | Some column \<Rightarrow>
          let s = map_values normalize_cell column;
              s_valid = filter (\<lambda>(idx, v). \<not> isin v NULL_SENTINELS) s
          in if s_valid = [] then Inr []
             else
               let groups = duplicated s_valid
               in if groups = [] then Inr []
                  else Inr (exact_groups ''Exact'' groups))"

fun join_with :: "string \<Rightarrow> string list \<Rightarrow> string" where
  "join_with sep [] = []"
| "join_with sep [x] = x"
| "join_with sep (x # y # ys) = x @ sep @ join_with sep (y # ys)"

fun column_positions :: "string list \<Rightarrow> string list \<Rightarrow> error + nat list" where
  "column_positions columns [] = Inr []"
| "column_positions columns (c # cs) =
     (case column_pos columns c of
        None \<Rightarrow> Inl (Key_Error c)
      | Some k \<Rightarrow>
          (case column_positions columns cs of Inl e \<Rightarrow> Inl e | Inr ks \<Rightarrow> Inr (k # ks)))"

definition detect_exact_duplicates_combination ::
  "dataframe \<Rightarrow> string list \<Rightarrow> error + dup_row list" where
  "detect_exact_duplicates_combination df cols =
     (case column_positions (df_columns df) cols of
        Inl e \<Rightarrow> Inl e
      | Inr ks \<Rightarrow>
          let combo = map (\<lambda>(idx, r). (idx, map (\<lambda>k. normalize_cell (r ! k)) ks)) (df_rows df);
              combo_valid = filter (\<lambda>(idx, vs). \<not> list_all (\<lambda>v. isin v NULL_SENTINELS) vs) combo
          in if combo_valid = [] then Inr []
             else
               let combo_key = map (\<lambda>(idx, vs). (idx, join_with ''||'' vs)) combo_valid;
                   groups = duplicated combo_key
               in if groups = [] then Inr []
                  else Inr (exact_groups ''Combination'' groups))"

section \<open>Hybrid fuzzy duplicate detection\<close>

text \<open>
  The string scorers come from \<^verbatim>\<open>rapidfuzz\<close> (four of them) or, when that import
  fails, from \<^verbatim>\<open>difflib\<close>. They are parameters: \<open>rapidfuzz = None\<close> is
  \<^verbatim>\<open>RAPIDFUZZ_AVAILABLE = False\<close>, \<open>cdist_importable\<close> says whether
  \<^verbatim>\<open>rapidfuzz.process.cdist\<close> can be imported, \<open>sequence_ratio\<close> is
  \<^verbatim>\<open>SequenceMatcher(None, a, b).ratio()\<close>. Two orders are left open by the libraries and are
  parameters too: the order \<^verbatim>\<open>sort_values\<close> gives to pairs of equal score, and the
  iteration order of a Python set of row labels.
\<close>

record scorers =
  fuzz_ratio :: "string \<Rightarrow> string \<Rightarrow> real"
  fuzz_partial_ratio :: "string \<Rightarrow> string \<Rightarrow> real"
  fuzz_token_sort_ratio :: "string \<Rightarrow> string \<Rightarrow> real"
  fuzz_token_set_ratio :: "string \<Rightarrow> string \<Rightarrow> real"

type_synonym match = "nat \<times> nat \<times> real"

record runtime =
  rapidfuzz :: "scorers option"
  cdist_importable :: bool
  sequence_ratio :: "string \<Rightarrow> string \<Rightarrow> real"
  sort_by_score :: "match list \<Rightarrow> match list"
  set_iteration :: "nat list \<Rightarrow> nat list"

definition runtime_ok :: "runtime \<Rightarrow> bool" where
  "runtime_ok env \<longleftrightarrow>
     (\<forall>ms. set (sort_by_score env ms) = set ms)
     \<and> (\<forall>xs. set (set_iteration env xs) = set xs \<and> distinct (set_iteration env xs))"

definition ensemble :: "scorers \<Rightarrow> string \<Rightarrow> string \<Rightarrow> real" where
  "ensemble sc a b =
     fuzz_ratio sc a b * (15 / 100) + fuzz_partial_ratio sc a b * (20 / 100)
     + fuzz_token_sort_ratio sc a b * (30 / 100) + fuzz_token_set_ratio sc a b * (35 / 100)"

definition hybrid_cell_score :: "runtime \<Rightarrow> cell \<Rightarrow> cell \<Rightarrow> real" where
  "hybrid_cell_score env a_val b_val =
     (let a_str = py_lower (py_strip a_val);
          b_str = py_lower (py_strip b_val)
      in if a_str = b_str then 100
         else if a_str = [] \<and> b_str = [] then 100
         else if a_str = [] \<or> b_str = [] then 0
         else (case rapidfuzz env of
                 Some sc \<Rightarrow> ensemble sc a_str b_str
               | None \<Rightarrow> sequence_ratio env a_str b_str * 100))"

text \<open>\<^verbatim>\<open>row.get(col, "")\<close> on a row of a frame with the given columns.\<close>

definition row_get :: "string list \<Rightarrow> cell list \<Rightarrow> string \<Rightarrow> cell" where
  "row_get columns r col = (case column_pos columns col of None \<Rightarrow> '''' | Some k \<Rightarrow> r ! k)"

definition hybrid_row_score ::
  "runtime \<Rightarrow> string list \<Rightarrow> cell list \<Rightarrow> cell list \<Rightarrow> string list \<Rightarrow> real list \<Rightarrow> real" where
  "hybrid_row_score env columns a b cols weights =
     (let used = filter (\<lambda>(col, w). \<not> w \<le> 0) (zip cols weights);
          sims = map (\<lambda>(col, w). hybrid_cell_score env (row_get columns a col) (row_get columns b col))
                   used;
          wts = map snd used
      in if wts = [] then 0
         else sum_list (map (\<lambda>(s, w). s * w) (zip sims wts)) / sum_list wts)"

text \<open>
  \<^verbatim>\<open>_rapidfuzz_cdist_block_scores\<close>: \<open>None\<close> where the function returns \<^verbatim>\<open>None\<close>,
  \<open>Inl\<close> where \<^verbatim>\<open>block_df[col]\<close> raises, otherwise the entry of the score matrix
  for two rows of the block.
\<close>

definition rapidfuzz_cdist_block_scores ::
  "runtime \<Rightarrow> string list \<Rightarrow> string list \<Rightarrow> real list \<Rightarrow>
   (error + (cell list \<Rightarrow> cell list \<Rightarrow> real)) option" where
  "rapidfuzz_cdist_block_scores env columns cols weights =
     (case rapidfuzz env of
        None \<Rightarrow> None
      | Some sc \<Rightarrow>
          if \<not> cdist_importable env then None
          else
            let total_weight = sum_list (filter (\<lambda>w. w > 0) weights)
            in if total_weight = 0 then Some (Inr (\<lambda>a b. 0))
               else
                 let used = filter (\<lambda>(col, w). \<not> w \<le> 0) (zip cols weights)
                 in case column_positions columns (map fst used) of
                      Inl e \<Rightarrow> Some (Inl e)
                    | Inr ks \<Rightarrow>
                        Some (Inr (\<lambda>a b.
                          sum_list (map (\<lambda>(k, w).
                              ensemble sc (normalize_cell (a ! k)) (normalize_cell (b ! k))
                              * (w / total_weight))
                            (zip ks (map snd used))))))"

datatype warning =
    RapidFuzz_Not_Installed
  | Skipped_Null_Rows nat
  | Blocks_Skipped nat int
  | Scalar_Fallback_Blocks nat

text \<open>All pairs of a block in the order of the two nested \<^verbatim>\<open>for\<close> loops.\<close>

fun upper_pairs :: "'a list \<Rightarrow> ('a \<times> 'a) list" where
  "upper_pairs [] = []"
| "upper_pairs (x # xs) = map (Pair x) xs @ upper_pairs xs"

definition accepted :: "(cell list \<Rightarrow> cell list \<Rightarrow> real) \<Rightarrow> int \<Rightarrow> (nat \<times> cell list) list \<Rightarrow> match list" where
  "accepted score threshold block =
     map (\<lambda>((i, a), (j, b)). (i, j, score a b))
       (filter (\<lambda>((i, a), (j, b)). score a b \<ge> of_int threshold) (upper_pairs block))"

text \<open>The loop state: the matches so far, the skipped blocks, the scalar-fallback blocks.\<close>

type_synonym block_state = "match list \<times> nat \<times> nat"

definition compare_block ::
  "runtime \<Rightarrow> string list \<Rightarrow> string list \<Rightarrow> real list \<Rightarrow> int \<Rightarrow> int \<Rightarrow>
   (nat \<times> cell list) list \<Rightarrow> block_state \<Rightarrow> error + block_state" where
  "compare_block env columns cols weights threshold max_pairs_per_block block st =
     (case st of (matches, skipped_blocks, scalar_fallback_blocks) \<Rightarrow>
        let n = length block
        in if n < 2 then Inr st
           else
             let n_pairs = int (n * (n - 1) div 2);
                 scalar = accepted (\<lambda>a b. hybrid_row_score env columns a b cols weights)
                            threshold block
             in if rapidfuzz env \<noteq> None \<and> n_pairs \<le> max_pairs_per_block
                then (case rapidfuzz_cdist_block_scores env columns cols weights of
                        Some (Inl e) \<Rightarrow> Inl e
                      | Some (Inr score_matrix) \<Rightarrow>
                          Inr (matches @ accepted score_matrix threshold block,
                               skipped_blocks, scalar_fallback_blocks)
                      | None \<Rightarrow>
                          Inr (matches @ scalar, skipped_blocks, scalar_fallback_blocks + 1))
                else if n_pairs \<le> max_pairs_per_block
                then Inr (matches @ scalar, skipped_blocks, scalar_fallback_blocks + 1)
                else Inr (matches, skipped_blocks + 1, scalar_fallback_blocks))"

subsection \<open>Blocking\<close>

definition GEO_COLUMNS :: "string list" where
  "GEO_COLUMNS =
     [''Country'', ''country'', ''COUNTRY'', ''City'', ''city'', ''CITY'',
      ''State'', ''state'', ''STATE'', ''Region'', ''region'']"

definition block_key :: "string list \<Rightarrow> nat \<Rightarrow> cell list \<Rightarrow> string" where
  "block_key columns k0 r =
     (let primary = take 2 (normalize_cell (r ! k0))
      in case find (\<lambda>g. g \<in> set columns) GEO_COLUMNS of
           None \<Rightarrow> primary
         | Some geo_col \<Rightarrow> primary @ ''|'' @ take 3 (normalize_cell (row_get columns r geo_col)))"

text \<open>\<^verbatim>\<open>groupby(..., sort=False)\<close>: the groups in order of first appearance.\<close>

fun add_to_group :: "'k \<Rightarrow> 'a \<Rightarrow> ('k \<times> 'a list) list \<Rightarrow> ('k \<times> 'a list) list" where
  "add_to_group k a [] = [(k, [a])]"
| "add_to_group k a ((k', as) # gs) =
     (if k' = k then (k', as @ [a]) # gs else (k', as) # add_to_group k a gs)"

definition groupby :: "('a \<Rightarrow> 'k) \<Rightarrow> 'a list \<Rightarrow> ('k \<times> 'a list) list" where
  "groupby key xs = foldl (\<lambda>gs x. add_to_group (key x) x gs) [] xs"

definition blocks_of :: "string list \<Rightarrow> nat \<Rightarrow> (nat \<times> cell list) list \<Rightarrow> (nat \<times> cell list) list list" where
  "blocks_of columns k0 work =
     map snd (groupby (\<lambda>(idx, r). block_key columns k0 r)
                (filter (\<lambda>(idx, r). block_key columns k0 r \<noteq> '''') work))"

subsection \<open>Union-find\<close>

text \<open>
  \<^verbatim>\<open>_find\<close> is recursive with path compression on the dictionary \<^verbatim>\<open>parent\<close>; it
  returns the root and leaves the dictionary updated. Not returning is \<open>None\<close>.
\<close>

partial_function (option) uf_find :: "(nat \<rightharpoonup> nat) \<Rightarrow> nat \<Rightarrow> ((nat \<rightharpoonup> nat) \<times> nat) option" where
  "uf_find parent x =
     (let parent0 = (if parent x = None then parent(x \<mapsto> x) else parent)
      in if the (parent0 x) \<noteq> x
         then Option.bind (uf_find parent0 (the (parent0 x)))
                (\<lambda>(parent1, rep). Some (parent1(x \<mapsto> rep), rep))
         else Some (parent0, x))"

declare uf_find.simps [code]

definition uf_union :: "(nat \<rightharpoonup> nat) \<Rightarrow> nat \<Rightarrow> nat \<Rightarrow> (nat \<rightharpoonup> nat) option" where
  "uf_union parent x y =
     Option.bind (uf_find parent x) (\<lambda>(parent1, rx).
       Option.bind (uf_find parent1 y) (\<lambda>(parent2, ry).
         Some (if rx \<noteq> ry then parent2(ry \<mapsto> rx) else parent2)))"

fun union_all :: "match list \<Rightarrow> (nat \<rightharpoonup> nat) \<Rightarrow> (nat \<rightharpoonup> nat) option" where
  "union_all [] parent = Some parent"
| "union_all ((i, j, s) # ps) parent = Option.bind (uf_union parent i j) (union_all ps)"

text \<open>\<^verbatim>\<open>members.setdefault(root, []).append(idx)\<close> on an insertion-ordered dictionary.\<close>

fun collect_members ::
  "nat list \<Rightarrow> (nat \<rightharpoonup> nat) \<Rightarrow> (nat \<times> nat list) list \<Rightarrow> (nat \<times> nat list) list option" where
  "collect_members [] parent members = Some members"
| "collect_members (idx # rest) parent members =
     Option.bind (uf_find parent idx) (\<lambda>(parent1, rep).
       collect_members rest parent1 (add_to_group rep idx members))"

definition max_list :: "real list \<Rightarrow> real" where
  "max_list xs = foldl max (hd xs) (tl xs)"

definition group_rows :: "match list \<Rightarrow> int \<Rightarrow> nat \<Rightarrow> nat list \<Rightarrow> dup_row list" where
  "group_rows pair_df threshold group_num idx_list =
     (let group_pairs = filter (\<lambda>(i, j, s). i \<in> set idx_list \<and> j \<in> set idx_list) pair_df;
          best_score = (if group_pairs \<noteq> [] then max_list (map (\<lambda>(i, j, s). s) group_pairs)
                        else of_int threshold)
      in map (\<lambda>idx. \<lparr>dup_Row_Number = idx + 2, Duplicate_Group_ID = group_num,
                      Duplicate_Type = ''Hybrid Fuzzy'', Similarity_Score = round2 best_score\<rparr>)
           idx_list)"

fun number_groups :: "match list \<Rightarrow> int \<Rightarrow> nat \<Rightarrow> (nat \<times> nat list) list \<Rightarrow> dup_row list" where
  "number_groups pair_df threshold group_num [] = []"
| "number_groups pair_df threshold group_num ((rep, idx_list) # members) =
     (if length idx_list < 2 then number_groups pair_df threshold group_num members
      else group_rows pair_df threshold (group_num + 1) idx_list
           @ number_groups pair_df threshold (group_num + 1) members)"

definition cluster :: "runtime \<Rightarrow> match list \<Rightarrow> int \<Rightarrow> dup_row list option" where
  "cluster env matches threshold =
     (let pair_df = sort_by_score env matches
      in Option.bind (union_all pair_df Map.empty) (\<lambda>parent.
           let all_matched = set_iteration env (map fst pair_df @ map (\<lambda>(i, j, s). j) pair_df)
           in Option.bind (collect_members all_matched parent []) (\<lambda>members.
                Some (number_groups pair_df threshold 0 members))))"

subsection \<open>The detector\<close>

definition fuzzy_weights :: "string list \<Rightarrow> real list option \<Rightarrow> real list" where
  "fuzzy_weights cols weights =
     (case weights of
        None \<Rightarrow> replicate (length cols) 1
      | Some ws \<Rightarrow> if length ws \<noteq> length cols then replicate (length cols) 1 else ws)"

definition row_valid :: "string list \<Rightarrow> string list \<Rightarrow> cell list \<Rightarrow> bool" where
  "row_valid columns cols r =
     list_all (\<lambda>col. case column_pos columns col of
                        None \<Rightarrow> True
                      | Some k \<Rightarrow> \<not> isin (normalize_cell (r ! k)) NULL_SENTINELS) cols"

definition fuzzy_work :: "dataframe \<Rightarrow> string list \<Rightarrow> bool \<Rightarrow> (nat \<times> cell list) list" where
  "fuzzy_work df cols ignore_nulls =
     (if ignore_nulls then filter (\<lambda>(idx, r). row_valid (df_columns df) cols r) (df_rows df)
      else df_rows df)"

definition null_warnings :: "dataframe \<Rightarrow> string list \<Rightarrow> bool \<Rightarrow> warning list" where
  "null_warnings df cols ignore_nulls =
     (let dropped = length (filter (\<lambda>(idx, r). \<not> row_valid (df_columns df) cols r) (df_rows df))
      in if ignore_nulls \<and> dropped \<noteq> 0 then [Skipped_Null_Rows dropped] else [])"

definition block_warnings :: "runtime \<Rightarrow> int \<Rightarrow> nat \<Rightarrow> nat \<Rightarrow> warning list" where
  "block_warnings env max_pairs_per_block skipped_blocks scalar_fallback_blocks =
     (if skipped_blocks \<noteq> 0 then [Blocks_Skipped skipped_blocks max_pairs_per_block] else [])
     @ (if scalar_fallback_blocks \<noteq> 0 \<and> rapidfuzz env \<noteq> None
        then [Scalar_Fallback_Blocks scalar_fallback_blocks] else [])"

text \<open>
  The main comparison loop over the blocks of the working frame: the list
  \<^verbatim>\<open>matches\<close> with the two counters.
\<close>

definition fuzzy_matches ::
  "runtime \<Rightarrow> string list \<Rightarrow> nat \<Rightarrow> (nat \<times> cell list) list \<Rightarrow> string list \<Rightarrow> real list \<Rightarrow>
   int \<Rightarrow> int \<Rightarrow> error + block_state" where
  "fuzzy_matches env columns k0 work cols weights threshold max_pairs_per_block =
     for_each (compare_block env columns cols weights threshold max_pairs_per_block)
       (blocks_of columns k0 work) ([], 0, 0)"

text \<open>
  The result is the duplicate frame with the warnings, \<open>Inl\<close> for an exception, and
  \<open>None\<close> if the call does not return.
\<close>

definition detect_fuzzy_duplicates ::
  "runtime \<Rightarrow> dataframe \<Rightarrow> string list \<Rightarrow> int \<Rightarrow> real list option \<Rightarrow> int \<Rightarrow> bool \<Rightarrow>
   (error + dup_row list \<times> warning list) option" where
  "detect_fuzzy_duplicates env df cols threshold weights max_pairs_per_block ignore_nulls =
     (if cols = [] then Some (Inr ([], []))
      else
        let warnings0 = (if rapidfuzz env = None then [RapidFuzz_Not_Installed] else []);
            weights1 = fuzzy_weights cols weights;
            warnings1 = warnings0 @ null_warnings df cols ignore_nulls;
            work = fuzzy_work df cols ignore_nulls
        in if work = [] \<or> df_columns df = [] then Some (Inr ([], warnings1))
           else case column_pos (df_columns df) (hd cols) of
                  None \<Rightarrow> Some (Inl (Key_Error (hd cols)))
                | Some k0 \<Rightarrow>
                    (case fuzzy_matches env (df_columns df) k0 work cols weights1 threshold
                            max_pairs_per_block of
                       Inl e \<Rightarrow> Some (Inl e)
                     | Inr (matches, skipped_blocks, scalar_fallback_blocks) \<Rightarrow>
                         let warnings2 = warnings1
                               @ block_warnings env max_pairs_per_block skipped_blocks
                                   scalar_fallback_blocks
                         in if matches = [] then Some (Inr ([], warnings2))
                            else map_option (\<lambda>dup_df. Inr (dup_df, warnings2))
                                   (cluster env matches threshold)))"

subsection \<open>A model of the standard library's sequence matcher\<close>

text \<open>
  \<^verbatim>\<open>difflib.SequenceMatcher(None, a, b).ratio()\<close> is \<open>2 * M / T\<close>, where \<open>T\<close> is the
  total length and \<open>M\<close> the number of matched characters: the longest common block
  (the earliest in \<open>a\<close>, then the earliest in \<open>b\<close>) and, recursively, the matches to its
  left and to its right. The automatic junk heuristic only applies from 200 characters
  on. The model is used for worked examples only.
\<close>

fun common_prefix :: "string \<Rightarrow> string \<Rightarrow> nat" where
  "common_prefix (x # xs) (y # ys) = (if x = y then Suc (common_prefix xs ys) else 0)"
| "common_prefix xs ys = 0"

definition find_longest_match :: "string \<Rightarrow> string \<Rightarrow> nat \<times> nat \<times> nat" where
  "find_longest_match a b =
     foldl (\<lambda>(bi, bj, bk) (i, j).
              let k = common_prefix (drop i a) (drop j b)
              in if k > bk then (i, j, k) else (bi, bj, bk))
       (0, 0, 0)
       (concat (map (\<lambda>i. map (Pair i) [0..<length b]) [0..<length a]))"

fun matched_chars :: "nat \<Rightarrow> string \<Rightarrow> string \<Rightarrow> nat" where
  "matched_chars 0 a b = 0"
| "matched_chars (Suc fuel) a b =
     (case find_longest_match a b of
        (i, j, k) \<Rightarrow>
          if k = 0 then 0
          else matched_chars fuel (take i a) (take j b) + k
               + matched_chars fuel (drop (i + k) a) (drop (j + k) b))"

definition difflib_ratio :: "string \<Rightarrow> string \<Rightarrow> real" where
  "difflib_ratio a b =
     (if length a + length b = 0 then 1
      else 2 * real (matched_chars (length a) a b) / real (length a + length b))"

definition stable_sort_desc :: "match list \<Rightarrow> match list" where
  "stable_sort_desc ms = foldr (\<lambda>m acc. takeWhile (\<lambda>x. snd (snd x) > snd (snd m)) acc @ m
                                        # dropWhile (\<lambda>x. snd (snd x) > snd (snd m)) acc) ms []"

definition plain_runtime :: runtime where
  "plain_runtime =
     \<lparr>rapidfuzz = None, cdist_importable = False, sequence_ratio = difflib_ratio,
      sort_by_score = stable_sort_desc, set_iteration = remdups\<rparr>"

subsection \<open>Notions used to state the properties of duplicate detection\<close>

text \<open>
  \<open>rep_of parent x r\<close>: following the parent links from \<open>x\<close> ends in the root \<open>r\<close>
  (a key absent from the dictionary is its own root, as \<^verbatim>\<open>setdefault\<close> makes it).
\<close>

inductive rep_of :: "(nat \<rightharpoonup> nat) \<Rightarrow> nat \<Rightarrow> nat \<Rightarrow> bool" for parent where
  rep_root: "parent x = None \<or> parent x = Some x \<Longrightarrow> rep_of parent x x"
| rep_step: "parent x = Some y \<Longrightarrow> y \<noteq> x \<Longrightarrow> rep_of parent y r \<Longrightarrow> rep_of parent x r"

definition forest :: "(nat \<rightharpoonup> nat) \<Rightarrow> bool" where
  "forest parent \<longleftrightarrow> (\<forall>x. \<exists>r. rep_of parent x r)"

definition root_of :: "(nat \<rightharpoonup> nat) \<Rightarrow> nat \<Rightarrow> nat" where
  "root_of parent x = (THE r. rep_of parent x r)"

text \<open>A row all of whose monitored columns (those present in the frame) are null sentinels.\<close>

definition monitored_all_null :: "string list \<Rightarrow> string list \<Rightarrow> cell list \<Rightarrow> bool" where
  "monitored_all_null columns cols r =
     list_all (\<lambda>col. case column_pos columns col of
                        None \<Rightarrow> True
                      | Some k \<Rightarrow> isin (normalize_cell (r ! k)) NULL_SENTINELS) cols"

text \<open>A block of \<open>n\<close> rows is oversized when \<open>n * (n - 1) div 2\<close> exceeds the pair cap.\<close>

definition oversized :: "int \<Rightarrow> 'a list \<Rightarrow> bool" where
  "oversized max_pairs_per_block block =
     (int (length block * (length block - 1) div 2) > max_pairs_per_block)"

definition group_ids :: "dup_row list \<Rightarrow> (nat \<times> nat) set" where
  "group_ids dup_df = (\<lambda>d. (dup_Row_Number d, Duplicate_Group_ID d)) ` set dup_df"

text \<open>Two row labels are related when an accepted pair joins them, in either order.\<close>

definition match_rel :: "match list \<Rightarrow> (nat \<times> nat) set" where
  "match_rel ms = {(i, j). \<exists>s. (i, j, s) \<in> set ms \<or> (j, i, s) \<in> set ms}"

subsection \<open>Frames for worked examples\<close>

text \<open>
  Three names that form a chain: the first and the third are each close to the second
  but not to each other.
\<close>

definition chain_frame :: dataframe where
  "chain_frame =
     \<lparr>df_columns = [''name''],
      df_rows = [(0, [''abcdefgh'']), (1, [''abcdefxy'']), (2, [''abzzefxy'']), (3, [''q''])]\<rparr>"

text \<open>A block of three rows (three pairs) next to a block of two rows (one pair).\<close>

definition two_block_frame :: dataframe where
  "two_block_frame =
     \<lparr>df_columns = [''name''],
      df_rows = [(0, [''acme'']), (1, [''acme'']), (2, [''acme inc'']), (3, [''zeta'']),
                 (4, [''Zeta ''])]\<rparr>"

text \<open>Two rows whose only monitored cell is a null sentinel.\<close>

definition null_frame :: dataframe where
  "null_frame = \<lparr>df_columns = [''name''], df_rows = [(0, [''nan'']), (1, [''NaN ''])]\<rparr>"

section \<open>Properties of the scoring engine\<close>

lemma round_half_even_of_int: "round_half_even (of_int n) = n"
  by (simp add: round_half_even_def Let_def)

lemma round2_100: "round2 100 = 100"
  by (simp add: round2_def round_half_even_def Let_def)



lemma log_rule_pass:
  assumes "0 < n"
  shows "log_rule d c r n 0 exec_log =
     exec_log @
     [\<lparr>log_Dimension = d, log_Column = c, log_Rule = r, log_Evaluated = n, log_Failed = 0,
       log_Passed = n, log_Score_pct = Some 100, log_Severity = ''Pass'',
       log_Issue_Type = ISSUE_TYPE_MAP d\<rparr>]"
  using assms by (simp add: log_rule_def round2_100)

text \<open>
  C10. For a non-empty dataset, when the duplicate-records input is missing or empty,
  the uniqueness scorer returns exactly 100 and appends one Uniqueness entry to the
  audit log with evaluated equal to the number of rows and failed equal to 0.
\<close>

theorem uniqueness_clean_run_is_logged:
  assumes "0 < total_rows"
    and "dup_records = None \<or> (\<exists>d. dup_records = Some d \<and> dup_empty d)"
  shows "compute_uniqueness_score total_rows dup_records exec_log =
     (100,
      exec_log @
      [\<lparr>log_Dimension = ''Uniqueness'', log_Column = ''ALL'',
        log_Rule = Rule_Name ''Exact/Fuzzy Duplicate Check'',
        log_Evaluated = int total_rows, log_Failed = 0, log_Passed = int total_rows,
        log_Score_pct = Some 100, log_Severity = ''Pass'',
        log_Issue_Type = ''Duplicate Records''\<rparr>])"
proof -
  have "0 < int total_rows" using assms(1) by simp
  from log_rule_pass [OF this]
  have "log_rule ''Uniqueness'' ''ALL'' uniqueness_rule_label (int total_rows) 0 exec_log =
     exec_log @
      [\<lparr>log_Dimension = ''Uniqueness'', log_Column = ''ALL'',
        log_Rule = Rule_Name ''Exact/Fuzzy Duplicate Check'',
        log_Evaluated = int total_rows, log_Failed = 0, log_Passed = int total_rows,
        log_Score_pct = Some 100, log_Severity = ''Pass'',
        log_Issue_Type = ''Duplicate Records''\<rparr>]"
    by (simp add: uniqueness_rule_label_def ISSUE_TYPE_MAP_def)
  moreover have "dup_records = None \<or> dup_empty (the dup_records)"
    using assms(2) by auto
  ultimately show ?thesis
    using assms(1) by (simp add: compute_uniqueness_score_def)
qed

theorem uniqueness_clean_run_is_logged_witness:
  "compute_uniqueness_score 10 None [] =
     (100,
      [\<lparr>log_Dimension = ''Uniqueness'', log_Column = ''ALL'',
        log_Rule = Rule_Name ''Exact/Fuzzy Duplicate Check'',
        log_Evaluated = 10, log_Failed = 0, log_Passed = 10,
        log_Score_pct = Some 100, log_Severity = ''Pass'',
        log_Issue_Type = ''Duplicate Records''\<rparr>])
   \<and> compute_uniqueness_score 10 (Some (With_Row_Number [])) [] =
     (100,
      [\<lparr>log_Dimension = ''Uniqueness'', log_Column = ''ALL'',
        log_Rule = Rule_Name ''Exact/Fuzzy Duplicate Check'',
        log_Evaluated = 10, log_Failed = 0, log_Passed = 10,
        log_Score_pct = Some 100, log_Severity = ''Pass'',
        log_Issue_Type = ''Duplicate Records''\<rparr>])"
  using uniqueness_clean_run_is_logged [of 10 None "[]"]
    uniqueness_clean_run_is_logged [of 10 "Some (With_Row_Number [])" "[]"]
  by simp







section \<open>Properties of the validity rules\<close>

lemma length_is_empty_for_validity: "length (is_empty_for_validity s) = length s"
  by (simp add: is_empty_for_validity_def)

lemma mask_or_nth:
  assumes "i < length a" and "length b = length a"
  shows "mask_or a b ! i = (a ! i \<or> b ! i)"
  using assms by (simp add: mask_or_def)

lemma length_mask_or: "length b = length a \<Longrightarrow> length (mask_or a b) = length a"
  by (simp add: mask_or_def)

lemma or_skip_nth:
  assumes "or_skip skip (str_fullmatch lib pattern s) = Inr m"
    and "length skip = length s" and "i < length s" and "skip ! i"
  shows "m ! i"
proof -
  from assms(1) obtain valid where v: "str_fullmatch lib pattern s = Inr valid"
    and m: "m = mask_or skip valid"
    by (auto simp: or_skip_def split: sum.splits)
  from v have "length valid = length s"
    by (auto simp: str_fullmatch_def split: option.splits)
  with assms(2-4) show ?thesis
    unfolding m by (simp add: mask_or_nth)
qed

lemma failing_all_pass: "failing s (replicate (length s) True) = []"
proof -
  have "filter (\<lambda>(iv, m). \<not> m) (zip s (replicate n True)) = []" for n
    by (induction s arbitrary: n) (auto simp: zip_replicate2 split: nat.splits list.splits)
  then show ?thesis
    by (simp add: failing_def)
qed

text \<open>
  C1. The validity rules "Special Characters Not Allowed" and "Length Check" do not skip
  null-sentinel cells. In a column holding the cells "Alice", "", "n/a" and "missing",
  the default "Special Characters Not Allowed" rule emits an issue record for the empty
  cell and for "n/a" and logs two failures, and "Length Check" with maximum length 5
  emits one for "missing".
\<close>

theorem validity_flags_null_sentinels:
  "isin (py_lower (py_strip '''')) NULL_SENTINELS
   \<and> isin (py_lower (py_strip ''n/a'')) NULL_SENTINELS
   \<and> isin (py_lower (py_strip ''missing'')) NULL_SENTINELS
   \<and> execute_validity_rules example_lib names_frame [] [] Map.empty 0 100 [] [] []
       (Some [entry_for ''name'' ''Special Characters Not Allowed'' empty_config]) [] =
     Inr ([\<lparr>Row_Number = 3, Column_Name = ''name'',
             Rule_Applied = Rule_Name ''Special Characters Not Allowed'',
             Issue_Type = ''Invalid Format'', Original_Value = '''',
             Expected_Value = Expected ''Alphanumeric + spaces only'',
             Dimension = ''Validity''\<rparr>,
           \<lparr>Row_Number = 4, Column_Name = ''name'',
             Rule_Applied = Rule_Name ''Special Characters Not Allowed'',
             Issue_Type = ''Invalid Format'', Original_Value = ''n/a'',
             Expected_Value = Expected ''Alphanumeric + spaces only'',
             Dimension = ''Validity''\<rparr>],
          [\<lparr>log_Dimension = ''Validity'', log_Column = ''name'',
             log_Rule = Rule_Name ''Special Characters Not Allowed'',
             log_Evaluated = 4, log_Failed = 2, log_Passed = 2,
             log_Score_pct = Some 50, log_Severity = ''High'',
             log_Issue_Type = ''Invalid Format''\<rparr>])
   \<and> execute_validity_rules example_lib names_frame [] [] Map.empty 0 100 [] [] []
       (Some [entry_for ''name'' ''Length Check'' (empty_config\<lparr>cfg_max_length_val := Some 5\<rparr>)]) [] =
     Inr ([\<lparr>Row_Number = 5, Column_Name = ''name'', Rule_Applied = Length_Check_Label 5,
             Issue_Type = ''Invalid Format'', Original_Value = ''missing'',
             Expected_Value = Expected_Max_Length 5, Dimension = ''Validity''\<rparr>],
          [\<lparr>log_Dimension = ''Validity'', log_Column = ''name'',
             log_Rule = Length_Check_Label 5, log_Evaluated = 4, log_Failed = 1,
             log_Passed = 3, log_Score_pct = Some 75, log_Severity = ''Medium'',
             log_Issue_Type = ''Invalid Format''\<rparr>])"
  by code_simp

text \<open>
  C8 (as amended). A Custom Regex rule whose pattern does not compile passes every row:
  the rule's mask is all true, no issue record is added, one log entry with zero
  failures is appended and the run goes on with the next entry. The same holds for a
  Data Type rule with an unknown type name, whose mask is all true. No warning exists in
  the state handed back.
\<close>

theorem malformed_custom_regex_always_passes:
  assumes "re_compile lib pattern = None"
    and "pattern \<noteq> []"
    and "get_col df col = Some s"
    and "entry_column entry = col"
    and "entry_rule entry = ''Custom Regex''"
    and "get_or (cfg_regex (entry_config entry))
           (get_or (cfg_custom_regex (entry_config entry)) '''') = pattern"
    and "expected \<notin> {''numeric'', ''integer'', ''float'', ''date''}"
  shows "rule_custom_regex lib s pattern = replicate (length s) True
       \<and> run_custom_regex lib n_rows col s pattern (annexure, exec_log) =
           (annexure, log_rule ''Validity'' col (Regex_Label (take 30 pattern)) (int n_rows) 0 exec_log)
       \<and> validity_entry lib df dtype_map range_min range_max date_fmt entry (annexure, exec_log) =
           Inr (annexure,
                log_rule ''Validity'' col (Regex_Label (take 30 pattern)) (int (df_len df)) 0 exec_log)
       \<and> rule_data_type lib s expected = Inr (replicate (length s) True)"
proof -
  have mask: "rule_custom_regex lib s pattern = replicate (length s) True"
    using assms(1) by (simp add: rule_custom_regex_def str_fullmatch_def)
  have run: "run_custom_regex lib n col s pattern (annexure, exec_log) =
      (annexure, log_rule ''Validity'' col (Regex_Label (take 30 pattern)) (int n) 0 exec_log)" for n
    by (simp add: run_custom_regex_def mask failing_all_pass emit_and_log_def)
  have no_simple: "find (\<lambda>r. fst r = ''Custom Regex'') (simple_rules lib) = None"
    by (simp add: simple_rules_def)
  have entry: "validity_entry lib df dtype_map range_min range_max date_fmt entry (annexure, exec_log) =
      Inr (annexure,
           log_rule ''Validity'' col (Regex_Label (take 30 pattern)) (int (df_len df)) 0 exec_log)"
    using assms(2-6) by (simp add: validity_entry_def Let_def no_simple run)
  have dtype: "rule_data_type lib s expected = Inr (replicate (length s) True)"
    using assms(7) by (simp add: rule_data_type_def Let_def)
  from mask run entry dtype show ?thesis by simp
qed

theorem malformed_custom_regex_always_passes_witness:
  "rule_custom_regex example_lib [(0, ''Alice''), (1, ''''), (2, ''n/a''), (3, ''missing'')] ''[''
     = [True, True, True, True]
   \<and> validity_entry example_lib names_frame Map.empty 0 100 ''''
       (entry_for ''name'' ''Custom Regex'' (empty_config\<lparr>cfg_regex := Some ''[''\<rparr>)) ([], []) =
     Inr ([],
          [\<lparr>log_Dimension = ''Validity'', log_Column = ''name'', log_Rule = Regex_Label ''['',
             log_Evaluated = 4, log_Failed = 0, log_Passed = 4, log_Score_pct = Some 100,
             log_Severity = ''Pass'', log_Issue_Type = ''Invalid Format''\<rparr>])
   \<and> rule_data_type example_lib [(0, ''Alice''), (1, ''''), (2, ''n/a''), (3, ''missing'')] ''decimal''
     = Inr [True, True, True, True]"
proof -
  let ?s = "[(0, ''Alice''), (1, ''''), (2, ''n/a''), (3, ''missing'')]"
  let ?e = "entry_for ''name'' ''Custom Regex'' (empty_config\<lparr>cfg_regex := Some ''[''\<rparr>)"
  have 1: "re_compile example_lib ''['' = None"
    by (simp add: example_lib_def)
  have 2: "''['' \<noteq> []"
    by simp
  have 3: "get_col names_frame ''name'' = Some ?s"
    by (simp add: get_col_def names_frame_def)
  have 4: "entry_column ?e = ''name''" and 5: "entry_rule ?e = ''Custom Regex''"
    by (simp_all add: entry_for_def)
  have 6: "get_or (cfg_regex (entry_config ?e)) (get_or (cfg_custom_regex (entry_config ?e)) '''')
             = ''[''"
    by (simp add: entry_for_def empty_config_def get_or_def)
  have 7: "''decimal'' \<notin> {''numeric'', ''integer'', ''float'', ''date''}"
    by simp
  have l: "log_rule ''Validity'' ''name'' (Regex_Label (take 30 ''['')) (int (df_len names_frame)) 0 [] =
          [\<lparr>log_Dimension = ''Validity'', log_Column = ''name'', log_Rule = Regex_Label ''['',
             log_Evaluated = 4, log_Failed = 0, log_Passed = 4, log_Score_pct = Some 100,
             log_Severity = ''Pass'', log_Issue_Type = ''Invalid Format''\<rparr>]"
    by (simp add: log_rule_pass df_len_def names_frame_def ISSUE_TYPE_MAP_def)
  have r: "replicate (length ?s) True = [True, True, True, True]"
    by (simp add: numeral_eq_Suc)
  from malformed_custom_regex_always_passes [OF 1 2 3 4 5 6 7, of 0 "[]" "[]" Map.empty 0 100 "''''"]
  show ?thesis
    unfolding l r by simp
qed

theorem malformed_parameter_counterexample:
  "execute_validity_rules example_lib names_frame [] [] Map.empty 0 100 [] [] []
       (Some [entry_for ''name'' ''Custom Regex'' (empty_config\<lparr>cfg_regex := Some ''[''\<rparr>)]) [] =
     Inr ([],
          [\<lparr>log_Dimension = ''Validity'', log_Column = ''name'', log_Rule = Regex_Label ''['',
             log_Evaluated = 4, log_Failed = 0, log_Passed = 4, log_Score_pct = Some 100,
             log_Severity = ''Pass'', log_Issue_Type = ''Invalid Format''\<rparr>])
   \<and> execute_validity_rules example_lib names_frame [] [] Map.empty 0 100 [] [] []
       (Some [entry_for ''name'' ''Format Check'' (empty_config\<lparr>cfg_format_pattern := Some ''[''\<rparr>)]) [] =
     Inl (Re_Error ''['')"
  by code_simp

section \<open>Properties of the standardization rules\<close>

lemma length_map_values: "length (map_values g s) = length s"
  by (simp add: map_values_def)

lemma map_values_nth: "i < length s \<Longrightarrow> map_values g s ! i = (fst (s ! i), g (snd (s ! i)))"
  by (simp add: map_values_def case_prod_unfold)

lemma neq_mask_nth:
  "i < length s \<Longrightarrow> length c = length s \<Longrightarrow> neq_mask s c ! i = (snd (s ! i) \<noteq> snd (c ! i))"
  by (simp add: neq_mask_def case_prod_unfold)

lemma length_neq_mask: "length c = length s \<Longrightarrow> length (neq_mask s c) = length s"
  by (simp add: neq_mask_def)

lemma elementwise_flags:
  assumes "f = (\<lambda>s. (map_values g s, neq_mask s (map_values g s)))"
  shows "length (fst (f s)) = length s \<and> length (snd (f s)) = length s
       \<and> (\<forall>i<length s. snd (f s) ! i = (snd (fst (f s) ! i) \<noteq> snd (s ! i)))"
  unfolding assms
  by (auto simp: length_map_values length_neq_mask neq_mask_nth map_values_nth)

lemma norm_date_flags:
  "length (fst (std_normalize_date lib s fmt)) = length s
   \<and> length (snd (std_normalize_date lib s fmt)) = length s
   \<and> (\<forall>i<length s. snd (std_normalize_date lib s fmt) ! i
         = (snd (fst (std_normalize_date lib s fmt) ! i) \<noteq> snd (s ! i)))"
  unfolding std_normalize_date_def Let_def
  by (auto simp: neq_mask_def case_prod_unfold nth_enumerate_eq)

lemma std_rule_flags:
  assumes "f \<in> {std_trim_spaces, std_remove_extra_spaces, std_proper_case, std_lowercase,
                 std_uppercase, std_remove_special_chars, (\<lambda>s. std_normalize_date lib s fmt)}"
  shows "length (fst (f s)) = length s \<and> length (snd (f s)) = length s
       \<and> (\<forall>i<length s. snd (f s) ! i = (snd (fst (f s) ! i) \<noteq> snd (s ! i)))"
proof -
  consider "f = std_trim_spaces" | "f = std_remove_extra_spaces" | "f = std_proper_case"
    | "f = std_lowercase" | "f = std_uppercase" | "f = std_remove_special_chars"
    | "f = (\<lambda>s. std_normalize_date lib s fmt)"
    using assms by blast
  then show ?thesis
  proof cases
    case 1
    then have "f = (\<lambda>s. (map_values py_strip s, neq_mask s (map_values py_strip s)))"
      by (auto simp: std_trim_spaces_def Let_def)
    then show ?thesis by (rule elementwise_flags)
  next
    case 2
    then have "f = (\<lambda>s. (map_values (\<lambda>v. collapse_spaces False (py_strip v)) s,
                          neq_mask s (map_values (\<lambda>v. collapse_spaces False (py_strip v)) s)))"
      by (auto simp: std_remove_extra_spaces_def Let_def)
    then show ?thesis by (rule elementwise_flags)
  next
    case 3
    then have "f = (\<lambda>s. (map_values (\<lambda>v. py_title (py_strip v)) s,
                          neq_mask s (map_values (\<lambda>v. py_title (py_strip v)) s)))"
      by (auto simp: std_proper_case_def Let_def)
    then show ?thesis by (rule elementwise_flags)
  next
    case 4
    then have "f = (\<lambda>s. (map_values (\<lambda>v. py_lower (py_strip v)) s,
                          neq_mask s (map_values (\<lambda>v. py_lower (py_strip v)) s)))"
      by (auto simp: std_lowercase_def Let_def)
    then show ?thesis by (rule elementwise_flags)
  next
    case 5
    then have "f = (\<lambda>s. (map_values (\<lambda>v. py_upper (py_strip v)) s,
                          neq_mask s (map_values (\<lambda>v. py_upper (py_strip v)) s)))"
      by (auto simp: std_uppercase_def Let_def)
    then show ?thesis by (rule elementwise_flags)
  next
    case 6
    then have "f = (\<lambda>s. (map_values (\<lambda>v. py_strip (drop_special v)) s,
                          neq_mask s (map_values (\<lambda>v. py_strip (drop_special v)) s)))"
      by (auto simp: std_remove_special_chars_def Let_def)
    then show ?thesis by (rule elementwise_flags)
  next
    case 7
    then show ?thesis using norm_date_flags by simp
  qed
qed

lemma flagged_labels:
  assumes "length new_vals = length s" and "length changed = length s"
  shows "map fst (flagged s new_vals changed) = map (\<lambda>k. fst (s ! k)) (filter (\<lambda>k. changed ! k) [0..<length s])"
  using assms
proof (induction s arbitrary: new_vals changed rule: rev_induct)
  case Nil
  then show ?case by (simp add: flagged_def)
next
  case (snoc x xs)
  then obtain ns n cs c where nv: "new_vals = ns @ [n]" and ch: "changed = cs @ [c]"
    and l: "length ns = length xs" "length cs = length xs"
    by (metis length_append_singleton length_Suc_conv_rev)
  have ih: "map fst (flagged xs ns cs) = map (\<lambda>k. fst (xs ! k)) (filter (\<lambda>k. cs ! k) [0..<length xs])"
    using snoc.IH l by simp
  have a: "map (\<lambda>k. fst ((xs @ [x]) ! k)) (filter (\<lambda>k. (cs @ [c]) ! k) [0..<length xs])
         = map (\<lambda>k. fst (xs ! k)) (filter (\<lambda>k. cs ! k) [0..<length xs])"
    using l by (auto simp: nth_append intro!: map_cong filter_cong)
  have "flagged (xs @ [x]) (ns @ [n]) (cs @ [c]) = flagged xs ns cs @ (if c then [(fst x, snd x, snd n)] else [])"
    using l by (simp add: flagged_def case_prod_unfold)
  then show ?case
    unfolding nv ch using l ih a by (simp add: nth_append)
qed

lemma replace_null_flags:
  "length (fst (std_replace_null_default s d)) = length s
   \<and> length (snd (std_replace_null_default s d)) = length s
   \<and> (\<forall>i<length s. snd (std_replace_null_default s d) ! i
         = (py_strip (snd (s ! i)) = '''' \<or> py_lower (py_strip (snd (s ! i))) = ''nan''
            \<or> py_lower (py_strip (snd (s ! i))) = ''none''))"
  unfolding std_replace_null_default_def Let_def
  by (auto simp: map_values_def case_prod_unfold)

lemma flagged_rows:
  assumes "length new_vals = length s" and "length changed = length s"
  shows "map Row_Number
           (map (\<lambda>p. annex_row_of (fst p) col label issue (g p) (e p) dimension)
              (flagged s new_vals changed))
         = map (\<lambda>k. fst (s ! k) + 2) (filter (\<lambda>k. changed ! k) [0..<length s])"
proof -
  have "map Row_Number
           (map (\<lambda>p. annex_row_of (fst p) col label issue (g p) (e p) dimension)
              (flagged s new_vals changed))
        = map (\<lambda>i. i + 2) (map fst (flagged s new_vals changed))"
    by (simp add: annex_row_of_def)
  then show ?thesis
    unfolding flagged_labels [OF assms] by simp
qed

lemma apply_inline_annexure:
  assumes "get_col df col = Some s"
  shows "fst (snd (apply_inline n_rows col rule_name f (df, annexure, exec_log))) =
     annexure @
     map (\<lambda>p. annex_row_of (fst p) col (Rule_Name rule_name) ''Non-Standard Values''
                 (fst (snd p)) (Expected_Cleaned (snd (snd p))) ''Standardization'')
       (flagged s (fst (f s)) (snd (f s)))"
  using assms by (simp add: apply_inline_def case_prod_unfold)

lemma apply_norm_date_annexure:
  assumes "get_col df col = Some s"
  shows "fst (snd (apply_norm_date lib n_rows col fmt (df, annexure, exec_log))) =
     annexure @
     map (\<lambda>p. annex_row_of (fst p) col (Normalize_Date_Label fmt) ''Non-Standard Values''
                 (fst (snd p)) (Expected_Cleaned (snd (snd p))) ''Standardization'')
       (flagged s (fst (std_normalize_date lib s fmt)) (snd (std_normalize_date lib s fmt)))"
  using assms by (simp add: apply_norm_date_def case_prod_unfold)

lemma apply_null_default_annexure:
  assumes "get_col df col = Some s"
  shows "fst (snd (apply_null_default n_rows col d (df, annexure, exec_log))) =
     annexure @
     map (\<lambda>p. annex_row_of (fst p) col (Replace_Null_Label d) ''Non-Standard Values''
                 (fst (snd p)) (Expected_Cleaned d) ''Standardization'')
       (flagged s (fst (std_replace_null_default s d)) (snd (std_replace_null_default s d)))"
  using assms by (simp add: apply_null_default_def case_prod_unfold)

text \<open>
  C9 (as amended). For Trim Spaces, Remove Extra Spaces, Proper Case, Lowercase,
  Uppercase, Remove Special Characters and Normalize Date, a cell's changed-flag is set
  if and only if the rule's cleaned value differs from the value the rule was given,
  and the orchestrator emits exactly one issue record for each flagged cell. Replace
  Null with Default flags a cell if and only if its stripped value is empty or
  lowercases to "nan" or "none", and emits one issue record for each such cell.
\<close>

theorem standardization_flag_iff_changed:
  assumes "f \<in> {std_trim_spaces, std_remove_extra_spaces, std_proper_case, std_lowercase,
                 std_uppercase, std_remove_special_chars, (\<lambda>s. std_normalize_date lib s fmt)}"
    and "get_col df col = Some s"
    and "i < length s"
  shows "snd (f s) ! i = (snd (fst (f s) ! i) \<noteq> snd (s ! i))
       \<and> map Row_Number (drop (length annexure)
             (fst (snd (apply_inline n_rows col rule_name f (df, annexure, exec_log)))))
           = map (\<lambda>k. fst (s ! k) + 2) (filter (\<lambda>k. snd (f s) ! k) [0..<length s])
       \<and> map Row_Number (drop (length annexure)
             (fst (snd (apply_norm_date lib n_rows col fmt (df, annexure, exec_log)))))
           = map (\<lambda>k. fst (s ! k) + 2)
               (filter (\<lambda>k. snd (std_normalize_date lib s fmt) ! k) [0..<length s])
       \<and> snd (std_replace_null_default s default_value) ! i
           = (py_strip (snd (s ! i)) = '''' \<or> py_lower (py_strip (snd (s ! i))) = ''nan''
              \<or> py_lower (py_strip (snd (s ! i))) = ''none'')
       \<and> map Row_Number (drop (length annexure)
             (fst (snd (apply_null_default n_rows col default_value (df, annexure, exec_log)))))
           = map (\<lambda>k. fst (s ! k) + 2)
               (filter (\<lambda>k. snd (std_replace_null_default s default_value) ! k) [0..<length s])"
proof -
  note fl = std_rule_flags [OF assms(1), of s]
  have 1: "snd (f s) ! i = (snd (fst (f s) ! i) \<noteq> snd (s ! i))"
    using fl assms(3) by blast
  have 2: "map Row_Number (drop (length annexure)
             (fst (snd (apply_inline n_rows col rule_name f (df, annexure, exec_log)))))
           = map (\<lambda>k. fst (s ! k) + 2) (filter (\<lambda>k. snd (f s) ! k) [0..<length s])"
    unfolding apply_inline_annexure [OF assms(2)] using fl
    by (simp only: drop_append drop_all order_refl diff_self_eq_0 drop_0 append_Nil flagged_rows)
  have 3: "map Row_Number (drop (length annexure)
             (fst (snd (apply_norm_date lib n_rows col fmt (df, annexure, exec_log)))))
           = map (\<lambda>k. fst (s ! k) + 2)
               (filter (\<lambda>k. snd (std_normalize_date lib s fmt) ! k) [0..<length s])"
    unfolding apply_norm_date_annexure [OF assms(2)] using norm_date_flags [of lib s fmt]
    by (simp only: drop_append drop_all order_refl diff_self_eq_0 drop_0 append_Nil flagged_rows)
  have 4: "snd (std_replace_null_default s default_value) ! i
           = (py_strip (snd (s ! i)) = '''' \<or> py_lower (py_strip (snd (s ! i))) = ''nan''
              \<or> py_lower (py_strip (snd (s ! i))) = ''none'')"
    using replace_null_flags [of s default_value] assms(3) by blast
  have 5: "map Row_Number (drop (length annexure)
             (fst (snd (apply_null_default n_rows col default_value (df, annexure, exec_log)))))
           = map (\<lambda>k. fst (s ! k) + 2)
               (filter (\<lambda>k. snd (std_replace_null_default s default_value) ! k) [0..<length s])"
    unfolding apply_null_default_annexure [OF assms(2)]
    using replace_null_flags [of s default_value]
    by (simp only: drop_append drop_all order_refl diff_self_eq_0 drop_0 append_Nil flagged_rows)
  from 1 2 3 4 5 show ?thesis by blast
qed

theorem standardization_flag_iff_changed_witness:
  "snd (std_trim_spaces [(0, '' abc ''), (1, ''abc'')]) ! 0
   \<and> map Row_Number
       (fst (snd (apply_inline 2 ''name'' ''Trim Spaces'' std_trim_spaces
          (\<lparr>df_columns = [''name''], df_rows = [(0, ['' abc '']), (1, [''abc''])]\<rparr>, [], []))))
     = [2]
   \<and> \<not> snd (std_replace_null_default [(0, '' abc ''), (1, ''abc'')] ''N/A'') ! 0"
proof -
  let ?df = "\<lparr>df_columns = [''name''], df_rows = [(0, ['' abc '']), (1, [''abc''])]\<rparr>"
  let ?s = "[(0, '' abc ''), (1, ''abc'')] :: series"
  have 1: "std_trim_spaces \<in> {std_trim_spaces, std_remove_extra_spaces, std_proper_case,
             std_lowercase, std_uppercase, std_remove_special_chars,
             (\<lambda>s. std_normalize_date example_lib s ''%Y-%m-%d'')}"
    by simp
  have 2: "get_col ?df ''name'' = Some ?s"
    by (simp add: get_col_def)
  have 3: "0 < length ?s"
    by simp
  have t: "std_trim_spaces ?s = ([(0, ''abc''), (1, ''abc'')], [True, False])"
    by code_simp
  have u: "py_strip '' abc '' = ''abc''" "py_lower ''abc'' = ''abc''"
    by code_simp+
  have f: "filter (\<lambda>k. [True, False] ! k) [0..<2] = [0]"
    by (simp add: upt_rec [of 0] upt_rec [of 1])
  from standardization_flag_iff_changed [OF 1 2 3, of "[]" 2 "''Trim Spaces''" "[]" "''N/A''"]
  show ?thesis
    unfolding t by (simp add: u f)
qed

theorem standardization_flag_counterexample:
  "std_replace_null_default [(0, '' abc '')] ''N/A'' = ([(0, ''abc'')], [False])
   \<and> ''abc'' \<noteq> '' abc ''
   \<and> std_replace_null_default [(0, '''')] '''' = ([(0, '''')], [True])"
  by code_simp

section \<open>Properties of the hybrid cell score\<close>

text \<open>
  C2 (as amended). The hybrid cell score is 100 when the trimmed, lowercased strings
  are equal (which includes both being empty) and 0 when exactly one of them is the
  empty string. Every other pair, null-sentinel words included, is scored by the
  string scorers.
\<close>

theorem hybrid_cell_score_shortcuts:
  "(py_lower (py_strip a) = py_lower (py_strip b) \<longrightarrow> hybrid_cell_score env a b = 100)
   \<and> (py_lower (py_strip a) \<noteq> py_lower (py_strip b)
        \<and> (py_lower (py_strip a) = [] \<or> py_lower (py_strip b) = [])
       \<longrightarrow> hybrid_cell_score env a b = 0)
   \<and> (py_lower (py_strip a) \<noteq> py_lower (py_strip b)
        \<and> py_lower (py_strip a) \<noteq> [] \<and> py_lower (py_strip b) \<noteq> []
       \<longrightarrow> hybrid_cell_score env a b =
            (case rapidfuzz env of
               Some sc \<Rightarrow> ensemble sc (py_lower (py_strip a)) (py_lower (py_strip b))
             | None \<Rightarrow> sequence_ratio env (py_lower (py_strip a)) (py_lower (py_strip b)) * 100))"
  by (simp add: hybrid_cell_score_def Let_def)

theorem hybrid_cell_score_shortcuts_witness:
  "hybrid_cell_score plain_runtime ''Acme Corp'' '' acme corp '' = 100
   \<and> hybrid_cell_score plain_runtime ''  '' ''acme'' = 0
   \<and> hybrid_cell_score plain_runtime ''abcd'' ''bcde'' = 75"
proof -
  have n: "py_lower (py_strip ''Acme Corp'') = ''acme corp''"
    "py_lower (py_strip '' acme corp '') = ''acme corp''"
    "py_lower (py_strip ''  '') = ''''" "py_lower (py_strip ''acme'') = ''acme''"
    "py_lower (py_strip ''abcd'') = ''abcd''" "py_lower (py_strip ''bcde'') = ''bcde''"
    by code_simp+
  have r: "sequence_ratio plain_runtime ''abcd'' ''bcde'' * 100 = 75"
    by code_simp
  have e: "rapidfuzz plain_runtime = None"
    by (simp add: plain_runtime_def)
  show ?thesis
    using hybrid_cell_score_shortcuts [of "''Acme Corp''" "'' acme corp ''" plain_runtime]
      hybrid_cell_score_shortcuts [of "''  ''" "''acme''" plain_runtime]
      hybrid_cell_score_shortcuts [of "''abcd''" "''bcde''" plain_runtime]
    by (simp add: n r e)
qed

theorem hybrid_cell_score_absent_counterexample:
  "isin (py_lower (py_strip ''nan'')) NULL_SENTINELS
   \<and> isin (py_lower (py_strip ''null'')) NULL_SENTINELS
   \<and> hybrid_cell_score plain_runtime ''nan'' ''null'' = 200 / 7
   \<and> \<not> isin (py_lower (py_strip ''nancy'')) NULL_SENTINELS
   \<and> hybrid_cell_score plain_runtime ''nan'' ''nancy'' = 75
   \<and> (200 / 7 :: real) \<noteq> 100 \<and> (75 :: real) \<noteq> 0"
  by code_simp

section \<open>Union-find: the recursive find returns the root and keeps the classes\<close>

lemma rep_of_is_root: "rep_of p x r \<Longrightarrow> p r = None \<or> p r = Some r"
  by (induction rule: rep_of.induct) auto

lemma rep_of_unique: "rep_of p x r \<Longrightarrow> rep_of p x r' \<Longrightarrow> r = r'"
proof (induction arbitrary: r' rule: rep_of.induct)
  case (rep_root x)
  from rep_root.prems rep_root.hyps show ?case
    by (cases rule: rep_of.cases) auto
next
  case (rep_step x y r)
  from rep_step.prems rep_step.hyps show ?case
    by (cases rule: rep_of.cases) (auto intro: rep_step.IH)
qed

lemma root_of_eq: "rep_of p x r \<Longrightarrow> root_of p x = r"
  unfolding root_of_def by (blast intro: the_equality rep_of_unique)

lemma forest_rep: "forest p \<Longrightarrow> rep_of p x (root_of p x)"
  unfolding forest_def by (metis root_of_eq)

lemma forest_empty: "forest Map.empty"
  unfolding forest_def by (auto intro: rep_root)

lemma rep_rootI: "p x = None \<or> p x = Some x \<Longrightarrow> r = x \<Longrightarrow> rep_of p x r"
  by (simp add: rep_root)

lemma rep_of_setdefault:
  assumes "p x = None" and "rep_of p y s"
  shows "rep_of (p(x \<mapsto> x)) y s"
  using assms(2)
proof (induction rule: rep_of.induct)
  case (rep_root y)
  show ?case
    by (rule rep_of.rep_root) (use rep_root in auto)
next
  case (rep_step y z r)
  with assms(1) have "y \<noteq> x" by auto
  show ?case
    by (rule rep_of.rep_step [where y = z]) (use rep_step \<open>y \<noteq> x\<close> in auto)
qed

lemma rep_of_compress:
  assumes xr: "rep_of p x r" and "rep_of p z s"
  shows "rep_of (p(x \<mapsto> r)) z s"
  using assms(2)
proof (induction rule: rep_of.induct)
  case (rep_root z)
  show ?case
  proof (cases "z = x")
    case True
    have "rep_of p x x" using rep_root True by (simp add: rep_of.rep_root)
    then have "r = x" using xr rep_of_unique by blast
    show ?thesis
      by (rule rep_of.rep_root) (use True \<open>r = x\<close> in simp)
  next
    case False
    show ?thesis
      by (rule rep_of.rep_root) (use False rep_root in simp)
  qed
next
  case (rep_step z w s)
  show ?case
  proof (cases "z = x")
    case True
    have "rep_of p x s"
      using rep_step.hyps True rep_of.rep_step by blast
    then have rs: "r = s" using xr rep_of_unique by blast
    have rroot: "p r = None \<or> p r = Some r" using xr rep_of_is_root by blast
    have ne: "r \<noteq> x" using rroot rep_step.hyps True by auto
    have rr: "rep_of (p(x \<mapsto> r)) r r"
      by (rule rep_of.rep_root) (use rroot ne in simp)
    have "rep_of (p(x \<mapsto> r)) x r"
      by (rule rep_of.rep_step [where y = r]) (use ne rr in simp_all)
    then show ?thesis unfolding True rs .
  next
    case False
    show ?thesis
      by (rule rep_of.rep_step [where y = w]) (use False rep_step in simp_all)
  qed
qed

lemma uf_find_spec:
  assumes "rep_of p x r"
  shows "\<exists>p'. uf_find p x = Some (p', r) \<and> (\<forall>y s. rep_of p y s \<longrightarrow> rep_of p' y s) \<and> p' r = Some r"
  using assms
proof (induction rule: rep_of.induct)
  case (rep_root x)
  show ?case
  proof (cases "p x")
    case None
    then have "uf_find p x = Some (p(x \<mapsto> x), x)"
      by (subst uf_find.simps) simp
    moreover have "rep_of (p(x \<mapsto> x)) y s" if "rep_of p y s" for y s
      using None that by (rule rep_of_setdefault)
    ultimately show ?thesis by auto
  next
    case (Some a)
    with rep_root have "p x = Some x" by auto
    then have "uf_find p x = Some (p, x)"
      by (subst uf_find.simps) simp
    then show ?thesis using \<open>p x = Some x\<close> by auto
  qed
next
  case (rep_step x y r)
  then obtain p1 where f: "uf_find p y = Some (p1, r)"
    and pres: "\<forall>z s. rep_of p z s \<longrightarrow> rep_of p1 z s" and rr: "p1 r = Some r"
    by blast
  have "uf_find p x = Some (p1(x \<mapsto> r), r)"
    using rep_step.hyps(1,2) f by (subst uf_find.simps) simp
  moreover have xr: "rep_of p1 x r"
    using pres rep_step.hyps by (auto intro: rep_of.rep_step)
  moreover have "rep_of (p1(x \<mapsto> r)) z s" if "rep_of p z s" for z s
    using rep_of_compress [OF xr] pres that by blast
  moreover have "r \<noteq> x"
    using rep_of_is_root [OF rep_step.hyps(3)] rep_step.hyps(1,2) by auto
  ultimately show ?case using rr by auto
qed

lemma forest_preserved:
  assumes "forest p" and "\<forall>y s. rep_of p y s \<longrightarrow> rep_of p' y s"
  shows "forest p'" and "root_of p' y = root_of p y"
proof -
  show "forest p'" using assms unfolding forest_def by blast
  show "root_of p' y = root_of p y"
    using assms forest_rep root_of_eq by blast
qed

lemma uf_find_forest:
  assumes "forest p"
  shows "\<exists>p'. uf_find p x = Some (p', root_of p x) \<and> forest p' \<and> (\<forall>y. root_of p' y = root_of p y)
           \<and> p' (root_of p x) = Some (root_of p x)"
proof -
  from uf_find_spec [OF forest_rep [OF assms, of x]]
  obtain p' where "uf_find p x = Some (p', root_of p x)"
    and pres: "\<forall>y s. rep_of p y s \<longrightarrow> rep_of p' y s" and "p' (root_of p x) = Some (root_of p x)"
    by blast
  then show ?thesis
    using forest_preserved [OF assms pres] by auto
qed

lemma rep_of_link:
  assumes rx: "p rx = None \<or> p rx = Some rx" and ry: "p ry = None \<or> p ry = Some ry"
    and ne: "rx \<noteq> ry" and "rep_of p z s"
  shows "rep_of (p(ry \<mapsto> rx)) z (if s = ry then rx else s)"
  using assms(4)
proof (induction rule: rep_of.induct)
  case (rep_root z)
  show ?case
  proof (cases "z = ry")
    case True
    have a: "rep_of (p(ry \<mapsto> rx)) rx rx"
      by (rule rep_of.rep_root) (use rx ne in simp)
    have "rep_of (p(ry \<mapsto> rx)) ry rx"
      by (rule rep_of.rep_step [where y = rx]) (use ne a in simp_all)
    then show ?thesis by (simp only: True refl if_True)
  next
    case False
    have "rep_of (p(ry \<mapsto> rx)) z z"
      by (rule rep_of.rep_root) (use False rep_root in simp)
    then show ?thesis by (simp only: False if_False)
  qed
next
  case (rep_step z w s)
  then have "z \<noteq> ry" using ry by auto
  show ?case
    by (rule rep_of.rep_step [where y = w]) (use \<open>z \<noteq> ry\<close> rep_step in simp_all)
qed

lemma uf_union_forest:
  assumes "forest p"
  shows "\<exists>p'. uf_union p x y = Some p' \<and> forest p'
           \<and> (\<forall>a b. root_of p a = root_of p b \<longrightarrow> root_of p' a = root_of p' b)
           \<and> root_of p' x = root_of p' y"
proof -
  from uf_find_forest [OF assms, of x] obtain p1 where
    f1: "uf_find p x = Some (p1, root_of p x)" and fo1: "forest p1"
    and r1: "\<forall>z. root_of p1 z = root_of p z"
    by blast
  from uf_find_forest [OF fo1, of y] obtain p2 where
    f2: "uf_find p1 y = Some (p2, root_of p1 y)" and fo2: "forest p2"
    and r2: "\<forall>z. root_of p2 z = root_of p1 z"
    by blast
  let ?rx = "root_of p x" and ?ry = "root_of p y"
  have r20: "root_of p2 z = root_of p z" for z using r1 r2 by simp
  have rep2: "rep_of p2 z (root_of p z)" for z
    using forest_rep [OF fo2, of z] r20 by simp
  have u: "uf_union p x y = Some (if ?rx \<noteq> ?ry then p2(?ry \<mapsto> ?rx) else p2)"
    using f1 f2 r1 by (simp add: uf_union_def)
  show ?thesis
  proof (cases "?rx = ?ry")
    case True
    have "uf_union p x y = Some p2" using u True by simp
    moreover have "root_of p2 x = root_of p2 y" using True r20 by simp
    moreover have "root_of p2 a = root_of p2 b" if "root_of p a = root_of p b" for a b
      using that r20 by simp
    ultimately show ?thesis using fo2 by blast
  next
    case False
    let ?p3 = "p2(?ry \<mapsto> ?rx)"
    have rootx: "p2 ?rx = None \<or> p2 ?rx = Some ?rx"
      using rep_of_is_root [OF rep2 [of x]] .
    have rooty: "p2 ?ry = None \<or> p2 ?ry = Some ?ry"
      using rep_of_is_root [OF rep2 [of y]] .
    have rep3: "rep_of ?p3 z (if root_of p z = ?ry then ?rx else root_of p z)" for z
      using rep_of_link [OF rootx rooty False rep2 [of z]] .
    then have fo3: "forest ?p3" unfolding forest_def by blast
    have r3: "root_of ?p3 z = (if root_of p z = ?ry then ?rx else root_of p z)" for z
      using rep3 [of z] by (rule root_of_eq)
    have "uf_union p x y = Some ?p3" using u False by simp
    moreover have "root_of ?p3 a = root_of ?p3 b" if "root_of p a = root_of p b" for a b
      unfolding r3 using that by simp
    moreover have "root_of ?p3 x = root_of ?p3 y"
      unfolding r3 by simp
    ultimately show ?thesis using fo3 by blast
  qed
qed

lemma union_all_forest:
  assumes "forest p"
  shows "\<exists>p'. union_all ps p = Some p' \<and> forest p'
           \<and> (\<forall>a b. root_of p a = root_of p b \<longrightarrow> root_of p' a = root_of p' b)
           \<and> (\<forall>(i, j, s) \<in> set ps. root_of p' i = root_of p' j)"
  using assms
proof (induction ps arbitrary: p)
  case Nil
  then show ?case by simp
next
  case (Cons m ps)
  obtain i j s where m: "m = (i, j, s)" by (cases m) auto
  from uf_union_forest [OF Cons.prems, of i j] obtain p1 where
    u: "uf_union p i j = Some p1" and fo1: "forest p1"
    and keep1: "\<forall>a b. root_of p a = root_of p b \<longrightarrow> root_of p1 a = root_of p1 b"
    and ij: "root_of p1 i = root_of p1 j"
    by blast
  from Cons.IH [OF fo1] obtain p' where
    a: "union_all ps p1 = Some p'" and fo: "forest p'"
    and keep: "\<forall>a b. root_of p1 a = root_of p1 b \<longrightarrow> root_of p' a = root_of p' b"
    and rest: "\<forall>(i, j, s) \<in> set ps. root_of p' i = root_of p' j"
    by blast
  have "union_all (m # ps) p = Some p'"
    using u a by (simp add: m)
  moreover have "root_of p' i = root_of p' j"
    using keep ij by blast
  moreover have "root_of p' a = root_of p' b" if "root_of p a = root_of p b" for a b
    using keep keep1 that by blast
  moreover have "\<forall>(i, j, s) \<in> set (m # ps). root_of p' i = root_of p' j"
    using rest \<open>root_of p' i = root_of p' j\<close> by (simp add: m)
  ultimately show ?case
    using fo by blast
qed

lemma collect_members_forest:
  assumes "forest p"
  shows "collect_members idxs p ms =
           Some (foldl (\<lambda>gs idx. add_to_group (root_of p idx) idx gs) ms idxs)"
  using assms
proof (induction idxs arbitrary: p ms)
  case Nil
  then show ?case by simp
next
  case (Cons idx idxs)
  from uf_find_forest [OF Cons.prems, of idx] obtain p1 where
    f: "uf_find p idx = Some (p1, root_of p idx)" and fo1: "forest p1"
    and r1: "\<forall>z. root_of p1 z = root_of p z"
    by blast
  have "root_of p1 = root_of p" using r1 by (intro ext) simp
  then show ?case
    using f Cons.IH [OF fo1] by simp
qed

section \<open>Grouping in order of first appearance\<close>

lemma add_to_group_keys: "fst ` set (add_to_group k a gs) = insert k (fst ` set gs)"
proof (induction gs)
  case Nil
  then show ?case by simp
next
  case (Cons g gs)
  obtain k' l where g: "g = (k', l)" by (cases g)
  show ?case
  proof (cases "k' = k")
    case True
    then show ?thesis by (simp add: g)
  next
    case False
    then show ?thesis by (simp add: g Cons.IH insert_commute)
  qed
qed

lemma add_to_group_members:
  "(\<Union>g \<in> set (add_to_group k a gs). set (snd g)) = insert a (\<Union>g \<in> set gs. set (snd g))"
proof (induction gs)
  case Nil
  then show ?case by simp
next
  case (Cons g gs)
  obtain k' l where g: "g = (k', l)" by (cases g)
  show ?case
  proof (cases "k' = k")
    case True
    then show ?thesis by (simp add: g)
  next
    case False
    then show ?thesis by (simp add: g Cons.IH Un_insert_right)
  qed
qed

lemma add_to_group_distinct_keys:
  "distinct (map fst gs) \<Longrightarrow> distinct (map fst (add_to_group k a gs))"
proof (induction gs)
  case Nil
  then show ?case by simp
next
  case (Cons g gs)
  obtain k' l where g: "g = (k', l)" by (cases g)
  show ?case
  proof (cases "k' = k")
    case True
    then show ?thesis using Cons.prems g by simp
  next
    case False
    have "k' \<notin> fst ` set (add_to_group k a gs)"
      using Cons.prems g False by (simp add: add_to_group_keys)
    then show ?thesis using Cons g False by simp
  qed
qed

lemma add_to_group_cases:
  assumes "(k', l') \<in> set (add_to_group k a gs)"
  shows "(k', l') \<in> set gs \<or> (k' = k \<and> (l' = [a] \<or> (\<exists>l. (k, l) \<in> set gs \<and> l' = l @ [a])))"
proof (use assms in \<open>induction gs\<close>)
  case Nil
  then show ?case by simp
next
  case (Cons g gs)
  obtain k0 l0 where g: "g = (k0, l0)" by (cases g)
  show ?case
  proof (cases "k0 = k")
    case True
    then show ?thesis using Cons.prems g by auto
  next
    case False
    then show ?thesis using Cons g by auto
  qed
qed

lemma groupby_snoc: "groupby key (xs @ [x]) = add_to_group (key x) x (groupby key xs)"
  by (simp add: groupby_def)

lemma groupby_keys: "fst ` set (groupby key xs) = key ` set xs"
proof (induction xs rule: rev_induct)
  case Nil
  then show ?case by (simp add: groupby_def)
next
  case (snoc x xs)
  then show ?case
    unfolding groupby_snoc add_to_group_keys by simp
qed

lemma groupby_members: "(\<Union>g \<in> set (groupby key xs). set (snd g)) = set xs"
proof (induction xs rule: rev_induct)
  case Nil
  then show ?case by (simp add: groupby_def)
next
  case (snoc x xs)
  then show ?case
    unfolding groupby_snoc add_to_group_members by simp
qed

lemma groupby_distinct_keys: "distinct (map fst (groupby key xs))"
proof (induction xs rule: rev_induct)
  case Nil
  then show ?case by (simp add: groupby_def)
next
  case (snoc x xs)
  then show ?case
    unfolding groupby_snoc by (rule add_to_group_distinct_keys)
qed

lemma groupby_keyed:
  assumes "(k, l) \<in> set (groupby key xs)" and "x \<in> set l"
  shows "key x = k"
  using assms
proof (induction xs arbitrary: k l rule: rev_induct)
  case Nil
  then show ?case by (simp add: groupby_def)
next
  case (snoc y ys)
  from snoc.prems(1) [unfolded groupby_snoc, THEN add_to_group_cases]
  show ?case
  proof (elim disjE conjE exE)
    assume "(k, l) \<in> set (groupby key ys)"
    then show ?thesis using snoc.IH snoc.prems(2) by blast
  next
    assume "k = key y" "l = [y]"
    then show ?thesis using snoc.prems(2) by simp
  next
    fix l0 assume "k = key y" "(key y, l0) \<in> set (groupby key ys)" "l = l0 @ [y]"
    then show ?thesis using snoc.IH [of "key y" l0] snoc.prems(2) by auto
  qed
qed

lemma groupby_subset:
  assumes "(k, l) \<in> set (groupby key xs)"
  shows "set l \<subseteq> set xs"
  using assms groupby_members [of key xs] by force

lemma groupby_distinct_group:
  assumes "distinct xs" and "(k, l) \<in> set (groupby key xs)"
  shows "distinct l"
  using assms
proof (induction xs arbitrary: k l rule: rev_induct)
  case Nil
  then show ?case by (simp add: groupby_def)
next
  case (snoc y ys)
  have d: "distinct ys" and ny: "y \<notin> set ys" using snoc.prems(1) by auto
  from snoc.prems(2) [unfolded groupby_snoc, THEN add_to_group_cases]
  show ?case
  proof (elim disjE conjE exE)
    assume "(k, l) \<in> set (groupby key ys)"
    then show ?thesis using snoc.IH d by blast
  next
    assume "l = [y]"
    then show ?thesis by simp
  next
    fix l0 assume a: "(key y, l0) \<in> set (groupby key ys)" "l = l0 @ [y]"
    then have "distinct l0" using snoc.IH d by blast
    moreover have "y \<notin> set l0" using groupby_subset [OF a(1)] ny by blast
    ultimately show ?thesis using a(2) by simp
  qed
qed

lemma groupby_class:
  assumes "x \<in> set xs"
  shows "\<exists>l. (key x, l) \<in> set (groupby key xs) \<and> set l = {y \<in> set xs. key y = key x}"
proof -
  from assms groupby_members [of key xs] obtain g where
    g: "g \<in> set (groupby key xs)" and xg: "x \<in> set (snd g)"
    by blast
  obtain k l where kl: "g = (k, l)" by (cases g)
  have k: "k = key x" using groupby_keyed [of k l key xs x] g xg kl by simp
  have "set l = {y \<in> set xs. key y = key x}"
  proof (intro set_eqI iffI)
    fix y assume "y \<in> set l"
    then show "y \<in> {y \<in> set xs. key y = key x}"
      using groupby_keyed [of k l key xs y] groupby_subset [of k l key xs] g kl k by auto
  next
    fix y assume "y \<in> {y \<in> set xs. key y = key x}"
    then have y: "y \<in> set xs" "key y = key x" by auto
    from y(1) groupby_members [of key xs] obtain g' where
      g': "g' \<in> set (groupby key xs)" and yg: "y \<in> set (snd g')"
      by blast
    obtain k' l' where kl': "g' = (k', l')" by (cases g')
    have "k' = key y" using groupby_keyed [of k' l' key xs y] g' yg kl' by simp
    then have "k' = k" using y(2) k by simp
    then have "l' = l"
      using groupby_distinct_keys [of key xs] g g' kl kl'
      by (metis eq_key_imp_eq_value)
    then show "y \<in> set l" using yg kl' by simp
  qed
  then show ?thesis using g kl k by auto
qed

section \<open>Clustering: accepted pairs end up in one numbered group\<close>

lemma two_members_length:
  assumes "x \<in> set l" and "y \<in> set l" and "x \<noteq> y"
  shows "2 \<le> length l"
proof -
  have "card {x, y} \<le> card (set l)"
    using assms by (intro card_mono) auto
  moreover have "card {x, y} = 2" using assms(3) by simp
  ultimately show ?thesis using card_length [of l] by linarith
qed

lemma group_ids_append: "group_ids (xs @ ys) = group_ids xs \<union> group_ids ys"
  by (auto simp: group_ids_def)

lemma group_ids_group_rows:
  "group_ids (group_rows ps t g l) = (\<lambda>x. (x + 2, g)) ` set l"
  by (simp add: group_ids_def group_rows_def Let_def image_image)

lemma number_groups_labels:
  assumes "d \<in> set (number_groups ps t n ms)"
  shows "\<exists>k l x. (k, l) \<in> set ms \<and> x \<in> set l \<and> dup_Row_Number d = x + 2"
  using assms
proof (induction ms arbitrary: n)
  case Nil
  then show ?case by simp
next
  case (Cons m ms)
  obtain k l where m: "m = (k, l)" by (cases m)
  show ?case
  proof (cases "length l < 2")
    case True
    then have "d \<in> set (number_groups ps t n ms)" using Cons.prems m by simp
    from Cons.IH [OF this] show ?thesis by auto
  next
    case False
    then have "d \<in> set (group_rows ps t (n + 1) l) \<or> d \<in> set (number_groups ps t (n + 1) ms)"
      using Cons.prems m by simp
    then show ?thesis
    proof
      assume "d \<in> set (group_rows ps t (n + 1) l)"
      then have "\<exists>x. x \<in> set l \<and> dup_Row_Number d = x + 2"
        by (auto simp: group_rows_def Let_def)
      then show ?thesis using m by auto
    next
      assume "d \<in> set (number_groups ps t (n + 1) ms)"
      from Cons.IH [OF this] show ?thesis by auto
    qed
  qed
qed

lemma number_groups_share:
  assumes "(k, l) \<in> set ms" and "2 \<le> length l"
  shows "\<exists>g. \<forall>x \<in> set l. (x + 2, g) \<in> group_ids (number_groups ps t n ms)"
  using assms
proof (induction ms arbitrary: n)
  case Nil
  then show ?case by simp
next
  case (Cons m ms)
  obtain k' l' where m: "m = (k', l')" by (cases m)
  show ?case
  proof (cases "(k, l) = m")
    case True
    then have "number_groups ps t n (m # ms) =
        group_rows ps t (n + 1) l @ number_groups ps t (n + 1) ms"
      using Cons.prems(2) m by auto
    then have "\<forall>x \<in> set l. (x + 2, n + 1) \<in> group_ids (number_groups ps t n (m # ms))"
      by (simp add: group_ids_append group_ids_group_rows)
    then show ?thesis by blast
  next
    case False
    then have in_tl: "(k, l) \<in> set ms" using Cons.prems(1) by auto
    show ?thesis
    proof (cases "length l' < 2")
      case True
      then have "number_groups ps t n (m # ms) = number_groups ps t n ms" using m by simp
      then show ?thesis using Cons.IH [OF in_tl Cons.prems(2), of n] by simp
    next
      case False
      then have "number_groups ps t n (m # ms) =
          group_rows ps t (n + 1) l' @ number_groups ps t (n + 1) ms"
        using m by simp
      then show ?thesis
        using Cons.IH [OF in_tl Cons.prems(2), of "n + 1"] by (auto simp: group_ids_append)
    qed
  qed
qed

lemma match_rel_roots:
  assumes "\<forall>(i, j, s) \<in> set ms. root_of p i = root_of p j" and "(x, y) \<in> (match_rel ms)\<^sup>+"
  shows "root_of p x = root_of p y"
  using assms(2)
proof (induction rule: trancl_induct)
  case (base y)
  then show ?case using assms(1) by (auto simp: match_rel_def)
next
  case (step y z)
  then show ?case using assms(1) by (auto simp: match_rel_def)
qed

lemma cluster_spec:
  assumes ok: "runtime_ok env"
  shows "\<exists>res. cluster env matches threshold = Some res
     \<and> (\<forall>d \<in> set res. \<exists>i j s. (i, j, s) \<in> set matches
            \<and> (dup_Row_Number d = i + 2 \<or> dup_Row_Number d = j + 2))
     \<and> ((\<forall>(i, j, s) \<in> set matches. i \<noteq> j) \<longrightarrow>
          (\<forall>x. \<exists>g. \<forall>y. (x, y) \<in> (match_rel matches)\<^sup>+ \<longrightarrow>
             (x + 2, g) \<in> group_ids res \<and> (y + 2, g) \<in> group_ids res))"
proof -
  let ?pairs = "sort_by_score env matches"
  let ?ends = "map fst ?pairs @ map (\<lambda>(i, j, s). j) ?pairs"
  let ?all = "set_iteration env ?ends"
  have sp: "set ?pairs = set matches" using ok by (simp add: runtime_ok_def)
  have sa: "set ?all = set ?ends" using ok by (simp add: runtime_ok_def)
  have ends: "set ?ends = {x. \<exists>i j s. (i, j, s) \<in> set matches \<and> (x = i \<or> x = j)}"
    unfolding set_append set_map sp by force
  from union_all_forest [OF forest_empty, of ?pairs] obtain p where
    u: "union_all ?pairs Map.empty = Some p" and fo: "forest p"
    and roots: "\<forall>(i, j, s) \<in> set ?pairs. root_of p i = root_of p j"
    by blast
  let ?members = "groupby (root_of p) ?all"
  have cm: "collect_members ?all p [] = Some ?members"
    using collect_members_forest [OF fo, of ?all "[]"] by (simp add: groupby_def)
  let ?res = "number_groups ?pairs threshold 0 ?members"
  have c: "cluster env matches threshold = Some ?res"
    using u cm by (simp add: cluster_def Let_def)
  have labels: "\<exists>i j s. (i, j, s) \<in> set matches
            \<and> (dup_Row_Number d = i + 2 \<or> dup_Row_Number d = j + 2)" if "d \<in> set ?res" for d
  proof -
    from number_groups_labels [OF that] obtain k l x where
      kl: "(k, l) \<in> set ?members" and x: "x \<in> set l" and d: "dup_Row_Number d = x + 2"
      by blast
    have "x \<in> set ?ends" using groupby_subset [OF kl] x sa by blast
    then have "x \<in> {x. \<exists>i j s. (i, j, s) \<in> set matches \<and> (x = i \<or> x = j)}"
      unfolding ends .
    then show ?thesis using d by auto
  qed
  have share: "\<exists>g. \<forall>y. (x, y) \<in> (match_rel matches)\<^sup>+ \<longrightarrow>
             (x + 2, g) \<in> group_ids ?res \<and> (y + 2, g) \<in> group_ids ?res"
    if ne: "\<forall>(i, j, s) \<in> set matches. i \<noteq> j" for x
  proof (cases "\<exists>x'. (x, x') \<in> match_rel matches")
    case False
    then have "(x, y) \<notin> (match_rel matches)\<^sup>+" for y
      by (meson tranclD)
    then show ?thesis by blast
  next
    case True
    then obtain x' where xx': "(x, x') \<in> match_rel matches" by blast
    have roots': "\<forall>(i, j, s) \<in> set matches. root_of p i = root_of p j"
      using roots sp by simp
    from xx' obtain s1 where s1: "(x, x', s1) \<in> set matches \<or> (x', x, s1) \<in> set matches"
      by (auto simp: match_rel_def)
    have nxx': "x \<noteq> x'" using s1 ne by auto
    have rxx': "root_of p x = root_of p x'" using s1 roots' by auto
    have "x \<in> {x. \<exists>i j s. (i, j, s) \<in> set matches \<and> (x = i \<or> x = j)}"
      using s1 by blast
    then have xe: "x \<in> set ?all" unfolding sa ends .
    have "x' \<in> {x. \<exists>i j s. (i, j, s) \<in> set matches \<and> (x = i \<or> x = j)}"
      using s1 by blast
    then have x'e: "x' \<in> set ?all" unfolding sa ends .
    from groupby_class [OF xe, of "root_of p"] obtain l where
      l: "(root_of p x, l) \<in> set ?members"
      and sl: "set l = {z \<in> set ?all. root_of p z = root_of p x}"
      by blast
    have xl: "x \<in> set l" unfolding sl using xe by simp
    have x'l: "x' \<in> set l" unfolding sl using x'e rxx' by simp
    have "2 \<le> length l"
      using two_members_length [OF xl x'l nxx'] .
    from number_groups_share [OF l this, of ?pairs threshold 0] obtain g where
      g: "\<forall>z \<in> set l. (z + 2, g) \<in> group_ids ?res"
      by blast
    have "(x + 2, g) \<in> group_ids ?res \<and> (y + 2, g) \<in> group_ids ?res"
      if xy: "(x, y) \<in> (match_rel matches)\<^sup>+" for y
    proof -
      have rxy: "root_of p x = root_of p y"
        using match_rel_roots [OF roots' xy] .
      from tranclD2 [OF xy] obtain y' where yy': "(y', y) \<in> match_rel matches" by blast
      from yy' obtain s2 where s2: "(y', y, s2) \<in> set matches \<or> (y, y', s2) \<in> set matches"
        by (auto simp: match_rel_def)
      have "y \<in> {x. \<exists>i j s. (i, j, s) \<in> set matches \<and> (x = i \<or> x = j)}"
        using s2 by blast
      then have ye: "y \<in> set ?all" unfolding sa ends .
      have yl: "y \<in> set l" unfolding sl using ye rxy by simp
      show ?thesis using g xl yl by blast
    qed
    then show ?thesis by blast
  qed
  have L: "\<forall>d \<in> set ?res. \<exists>i j s. (i, j, s) \<in> set matches
            \<and> (dup_Row_Number d = i + 2 \<or> dup_Row_Number d = j + 2)"
    using labels by blast
  have S: "(\<forall>(i, j, s) \<in> set matches. i \<noteq> j) \<longrightarrow>
          (\<forall>x. \<exists>g. \<forall>y. (x, y) \<in> (match_rel matches)\<^sup>+ \<longrightarrow>
             (x + 2, g) \<in> group_ids ?res \<and> (y + 2, g) \<in> group_ids ?res)"
    using share by blast
  show ?thesis
    by (rule exI [of _ ?res]) (intro conjI c L S)
qed

section \<open>The comparison loop over blocks\<close>

lemma upper_pairs_members:
  assumes "(x, y) \<in> set (upper_pairs xs)"
  shows "x \<in> set xs \<and> y \<in> set xs"
  using assms by (induction xs) auto

lemma upper_pairs_distinct:
  assumes "distinct (map f xs)" and "(x, y) \<in> set (upper_pairs xs)"
  shows "f x \<noteq> f y"
  using assms
proof (induction xs)
  case Nil
  then show ?case by simp
next
  case (Cons z zs)
  from Cons.prems(2) have "(x = z \<and> y \<in> set zs) \<or> (x, y) \<in> set (upper_pairs zs)"
    by auto
  then show ?case
  proof
    assume "x = z \<and> y \<in> set zs"
    then show ?thesis using Cons.prems(1) by auto
  next
    assume "(x, y) \<in> set (upper_pairs zs)"
    then show ?thesis using Cons.IH Cons.prems(1) by simp
  qed
qed

lemma accepted_pairs:
  assumes "(i, j, s) \<in> set (accepted score threshold block)"
  shows "\<exists>a b. ((i, a), (j, b)) \<in> set (upper_pairs block) \<and> s = score a b
           \<and> score a b \<ge> of_int threshold"
  using assms by (auto simp: accepted_def)

lemma oversized_iff:
  "oversized cap block \<longleftrightarrow> \<not> int (length block * (length block - 1) div 2) \<le> cap"
  by (simp add: oversized_def not_le)

lemma compare_block_result:
  assumes "compare_block env columns cols weights threshold cap block (ms, sk, fb) = Inr (ms', sk', fb')"
  shows "(if 2 \<le> length block \<and> oversized cap block
          then ms' = ms \<and> sk' = sk + 1
          else sk' = sk \<and> (\<forall>m \<in> set ms'. m \<in> set ms \<or>
                 (\<exists>i j s a b. m = (i, j, s) \<and> ((i, a), (j, b)) \<in> set (upper_pairs block))))"
proof (cases "length block < 2")
  case True
  then show ?thesis using assms by (simp add: compare_block_def)
next
  case False
  note big = False
  show ?thesis
  proof (cases "oversized cap block")
    case True
    then show ?thesis
      using assms big by (simp add: compare_block_def Let_def oversized_iff)
  next
    case False
    have "\<exists>sc. ms' = ms @ accepted sc threshold block \<and> sk' = sk"
      using assms big False
      by (auto simp: compare_block_def Let_def oversized_iff
          split: if_splits option.splits sum.splits)
    then obtain sc where "ms' = ms @ accepted sc threshold block" and "sk' = sk"
      by blast
    then show ?thesis
      using False accepted_pairs [of _ _ _ sc threshold block] by fastforce
  qed
qed

lemma column_pos_Some:
  assumes "c \<in> set columns"
  shows "\<exists>k. column_pos columns c = Some k"
  using assms by (induction columns) auto

lemma column_pos_None: "column_pos columns c = None \<longleftrightarrow> c \<notin> set columns"
  by (induction columns) auto

lemma column_positions_total:
  assumes "set cs \<subseteq> set columns"
  shows "\<exists>ks. column_positions columns cs = Inr ks"
  using assms
proof (induction cs)
  case Nil
  then show ?case by simp
next
  case (Cons c cs)
  then obtain ks where "column_positions columns cs = Inr ks" by auto
  moreover obtain k where "column_pos columns c = Some k"
    using Cons.prems column_pos_Some [of c columns] by auto
  ultimately show ?case by auto
qed

lemma compare_block_total:
  assumes "set cols \<subseteq> set columns"
  shows "\<exists>st'. compare_block env columns cols weights threshold cap block st = Inr st'"
proof -
  have "set (map fst (filter (\<lambda>(col, w). \<not> w \<le> 0) (zip cols weights))) \<subseteq> set columns"
    using assms by (auto dest: set_zip_leftD)
  from column_positions_total [OF this] obtain ks where
    "column_positions columns (map fst (filter (\<lambda>(col, w). \<not> w \<le> 0) (zip cols weights))) = Inr ks"
    by blast
  then have "rapidfuzz_cdist_block_scores env columns cols weights = None
      \<or> (\<exists>m. rapidfuzz_cdist_block_scores env columns cols weights = Some (Inr m))"
    by (auto simp: rapidfuzz_cdist_block_scores_def Let_def split: option.splits)
  then show ?thesis
    by (cases st) (auto simp: compare_block_def Let_def split: option.splits sum.splits)
qed

lemma for_each_total:
  assumes "\<And>x st. x \<in> set xs \<Longrightarrow> \<exists>st'. body x st = Inr st'"
  shows "\<exists>st'. for_each body xs st = Inr st'"
  using assms
proof (induction xs arbitrary: st)
  case Nil
  then show ?case by simp
next
  case (Cons x xs)
  from Cons.prems [of x st] obtain st1 where "body x st = Inr st1" by auto
  moreover from Cons.IH [of st1] Cons.prems obtain st2 where "for_each body xs st1 = Inr st2"
    by auto
  ultimately show ?case by simp
qed

lemma fuzzy_loop_result:
  assumes "for_each (compare_block env columns cols weights threshold cap) bs (ms, sk, fb)
             = Inr (ms', sk', fb')"
  shows "sk' = sk + length (filter (\<lambda>b. 2 \<le> length b \<and> oversized cap b) bs)
       \<and> (\<forall>m \<in> set ms'. m \<in> set ms \<or>
             (\<exists>b \<in> set bs. \<not> (2 \<le> length b \<and> oversized cap b)
                \<and> (\<exists>i j s a c. m = (i, j, s) \<and> ((i, a), (j, c)) \<in> set (upper_pairs b))))"
  using assms
proof (induction bs arbitrary: ms sk fb)
  case Nil
  then show ?case by simp
next
  case (Cons b bs)
  from Cons.prems obtain st1 where
    s1: "compare_block env columns cols weights threshold cap b (ms, sk, fb) = Inr st1"
    and r: "for_each (compare_block env columns cols weights threshold cap) bs st1
              = Inr (ms', sk', fb')"
    by (auto split: sum.splits)
  obtain ms1 sk1 fb1 where st1: "st1 = (ms1, sk1, fb1)" by (cases st1)
  note h = compare_block_result [OF s1 [unfolded st1]]
  note ih = Cons.IH [OF r [unfolded st1]]
  show ?case
  proof (cases "2 \<le> length b \<and> oversized cap b")
    case True
    then have "ms1 = ms" "sk1 = sk + 1" using h by simp_all
    then show ?thesis using ih True by auto
  next
    case False
    note h [unfolded if_not_P [OF False]]
    then have sk1: "sk1 = sk"
      and m1: "\<forall>m \<in> set ms1. m \<in> set ms \<or>
                 (\<exists>i j s a c. m = (i, j, s) \<and> ((i, a), (j, c)) \<in> set (upper_pairs b))"
      by blast+
    have "sk' = sk + length (filter (\<lambda>b. 2 \<le> length b \<and> oversized cap b) (b # bs))"
      using ih sk1 False by simp
    moreover have "m \<in> set ms \<or>
             (\<exists>b' \<in> set (b # bs). \<not> (2 \<le> length b' \<and> oversized cap b')
                \<and> (\<exists>i j s a c. m = (i, j, s) \<and> ((i, a), (j, c)) \<in> set (upper_pairs b')))"
      if "m \<in> set ms'" for m
    proof -
      from ih that have "m \<in> set ms1 \<or>
             (\<exists>b' \<in> set bs. \<not> (2 \<le> length b' \<and> oversized cap b')
                \<and> (\<exists>i j s a c. m = (i, j, s) \<and> ((i, a), (j, c)) \<in> set (upper_pairs b')))"
        by blast
      then show ?thesis
      proof
        assume "m \<in> set ms1"
        with m1 have "m \<in> set ms \<or>
                 (\<exists>i j s a c. m = (i, j, s) \<and> ((i, a), (j, c)) \<in> set (upper_pairs b))"
          by blast
        then show ?thesis using False by auto
      next
        assume "\<exists>b' \<in> set bs. \<not> (2 \<le> length b' \<and> oversized cap b')
                \<and> (\<exists>i j s a c. m = (i, j, s) \<and> ((i, a), (j, c)) \<in> set (upper_pairs b'))"
        then show ?thesis by auto
      qed
    qed
    ultimately show ?thesis by blast
  qed
qed

lemma blocks_of_group:
  assumes "b \<in> set (blocks_of columns k0 work)"
  shows "\<exists>k. (k, b) \<in> set (groupby (\<lambda>(idx, r). block_key columns k0 r)
                   (filter (\<lambda>(idx, r). block_key columns k0 r \<noteq> '''') work))"
  using assms by (auto simp: blocks_of_def)

lemma blocks_of_subset:
  assumes "b \<in> set (blocks_of columns k0 work)"
  shows "set b \<subseteq> set work"
proof -
  from blocks_of_group [OF assms] obtain k where
    "(k, b) \<in> set (groupby (\<lambda>(idx, r). block_key columns k0 r)
                   (filter (\<lambda>(idx, r). block_key columns k0 r \<noteq> '''') work))"
    by blast
  from groupby_subset [OF this] show ?thesis by auto
qed

lemma unique_row:
  assumes "distinct (map fst rows)" and "(i, r) \<in> set rows" and "(i, r') \<in> set rows"
  shows "r = r'"
  using assms by (meson eq_key_imp_eq_value)

lemma blocks_of_distinct_labels:
  assumes "distinct (map fst work)" and "b \<in> set (blocks_of columns k0 work)"
  shows "distinct (map fst b)"
proof -
  from blocks_of_group [OF assms(2)] obtain k where
    g: "(k, b) \<in> set (groupby (\<lambda>(idx, r). block_key columns k0 r)
                   (filter (\<lambda>(idx, r). block_key columns k0 r \<noteq> '''') work))"
    by blast
  have dw: "distinct work" using assms(1) by (simp add: distinct_map)
  then have "distinct (filter (\<lambda>(idx, r). block_key columns k0 r \<noteq> '''') work)"
    by simp
  from groupby_distinct_group [OF this g] have db: "distinct b" .
  have "inj_on fst (set work)" using assms(1) by (simp add: distinct_map)
  then have "inj_on fst (set b)"
    using blocks_of_subset [OF assms(2)] by (rule inj_on_subset)
  with db show ?thesis by (simp add: distinct_map)
qed

lemma blocks_of_disjoint:
  assumes "distinct (map fst work)"
    and "b \<in> set (blocks_of columns k0 work)" and "b' \<in> set (blocks_of columns k0 work)"
    and "(i, r) \<in> set b" and "(i, r') \<in> set b'"
  shows "b = b'"
proof -
  let ?key = "\<lambda>(idx, r). block_key columns k0 r"
  let ?xs = "filter (\<lambda>(idx, r). block_key columns k0 r \<noteq> '''') work"
  from blocks_of_group [OF assms(2)] obtain k where g: "(k, b) \<in> set (groupby ?key ?xs)"
    by blast
  from blocks_of_group [OF assms(3)] obtain k' where g': "(k', b') \<in> set (groupby ?key ?xs)"
    by blast
  have "(i, r) \<in> set work" "(i, r') \<in> set work"
    using blocks_of_subset [OF assms(2)] blocks_of_subset [OF assms(3)] assms(4,5) by auto
  then have "r = r'" using unique_row [OF assms(1)] by blast
  have "?key (i, r) = k" using groupby_keyed [OF g assms(4)] .
  moreover have "?key (i, r') = k'" using groupby_keyed [OF g' assms(5)] .
  ultimately have "k = k'" using \<open>r = r'\<close> by simp
  then show ?thesis
    using groupby_distinct_keys [of ?key ?xs] g g' by (metis eq_key_imp_eq_value)
qed

section \<open>The fuzzy detector as a whole\<close>

lemma fuzzy_work_subset: "set (fuzzy_work df cols ign) \<subseteq> set (df_rows df)"
  by (auto simp: fuzzy_work_def)

lemma fuzzy_work_distinct:
  assumes "distinct (map fst (df_rows df))"
  shows "distinct (map fst (fuzzy_work df cols ign))"
  using assms by (simp add: fuzzy_work_def distinct_map_filter)

lemma fuzzy_work_valid:
  assumes "(i, r) \<in> set (fuzzy_work df cols True)"
  shows "row_valid (df_columns df) cols r"
  using assms by (auto simp: fuzzy_work_def)

lemma fuzzy_matches_origin:
  assumes dl: "distinct (map fst work)"
    and fm: "fuzzy_matches env columns k0 work cols w threshold cap = Inr (ms, sk, fb)"
  shows "sk = length (filter (\<lambda>b. 2 \<le> length b \<and> oversized cap b) (blocks_of columns k0 work))"
    and "(i, j, s) \<in> set ms \<Longrightarrow>
          \<exists>b a c. b \<in> set (blocks_of columns k0 work) \<and> \<not> (2 \<le> length b \<and> oversized cap b)
            \<and> (i, a) \<in> set b \<and> (j, c) \<in> set b \<and> i \<noteq> j"
proof -
  note r = fuzzy_loop_result [OF fm [unfolded fuzzy_matches_def]]
  show "sk = length (filter (\<lambda>b. 2 \<le> length b \<and> oversized cap b) (blocks_of columns k0 work))"
    using r by simp
  assume "(i, j, s) \<in> set ms"
  with r obtain b i' j' s' a c where b: "b \<in> set (blocks_of columns k0 work)"
    and nb: "\<not> (2 \<le> length b \<and> oversized cap b)"
    and eq: "(i, j, s) = (i', j', s')" and p: "((i', a), (j', c)) \<in> set (upper_pairs b)"
    by fastforce
  have p': "((i, a), (j, c)) \<in> set (upper_pairs b)" using eq p by simp
  have "i \<noteq> j"
    using upper_pairs_distinct [OF blocks_of_distinct_labels [OF dl b] p'] by simp
  moreover have "(i, a) \<in> set b \<and> (j, c) \<in> set b"
    using upper_pairs_members [OF p'] .
  ultimately show "\<exists>b a c. b \<in> set (blocks_of columns k0 work)
            \<and> \<not> (2 \<le> length b \<and> oversized cap b)
            \<and> (i, a) \<in> set b \<and> (j, c) \<in> set b \<and> i \<noteq> j"
    using b nb by blast
qed

lemma fuzzy_matches_empty_work:
  "fuzzy_matches env columns k0 [] cols w threshold cap = Inr ([], 0, 0)"
  by (simp add: fuzzy_matches_def blocks_of_def groupby_def)

lemma block_warnings_none: "block_warnings env cap 0 0 = []"
  by (simp add: block_warnings_def)

lemma detect_fuzzy_run:
  assumes ok: "runtime_ok env" and ne: "cols \<noteq> []"
    and k0: "column_pos (df_columns df) (hd cols) = Some k0"
    and fm: "fuzzy_matches env (df_columns df) k0 (fuzzy_work df cols ign) cols
               (fuzzy_weights cols weights) threshold cap = Inr (ms, sk, fb)"
  shows "\<exists>res. detect_fuzzy_duplicates env df cols threshold weights cap ign =
            Some (Inr (res,
              (if rapidfuzz env = None then [RapidFuzz_Not_Installed] else [])
              @ null_warnings df cols ign @ block_warnings env cap sk fb))
     \<and> (\<forall>d \<in> set res. \<exists>i j s. (i, j, s) \<in> set ms
            \<and> (dup_Row_Number d = i + 2 \<or> dup_Row_Number d = j + 2))
     \<and> ((\<forall>(i, j, s) \<in> set ms. i \<noteq> j) \<longrightarrow>
          (\<forall>x. \<exists>g. \<forall>y. (x, y) \<in> (match_rel ms)\<^sup>+ \<longrightarrow>
             (x + 2, g) \<in> group_ids res \<and> (y + 2, g) \<in> group_ids res))"
proof -
  let ?w = "(if rapidfuzz env = None then [RapidFuzz_Not_Installed] else [])
              @ null_warnings df cols ign @ block_warnings env cap sk fb"
  have cn: "df_columns df \<noteq> []" using k0 by auto
  show ?thesis
  proof (cases "fuzzy_work df cols ign = [] \<or> ms = []")
    case True
    have e: "ms = []" and bw: "fuzzy_work df cols ign = [] \<longrightarrow> block_warnings env cap sk fb = []"
      using True fm by (auto simp: fuzzy_matches_empty_work block_warnings_none)
    have "detect_fuzzy_duplicates env df cols threshold weights cap ign = Some (Inr ([], ?w))"
      using ne cn k0 fm e bw by (simp add: detect_fuzzy_duplicates_def Let_def)
    moreover have "(match_rel ms)\<^sup>+ = {}"
      using e by (simp add: match_rel_def)
    ultimately show ?thesis by simp
  next
    case False
    from cluster_spec [OF ok, of ms threshold] obtain res where
      c: "cluster env ms threshold = Some res"
      and l: "\<forall>d \<in> set res. \<exists>i j s. (i, j, s) \<in> set ms
            \<and> (dup_Row_Number d = i + 2 \<or> dup_Row_Number d = j + 2)"
      and s: "(\<forall>(i, j, s) \<in> set ms. i \<noteq> j) \<longrightarrow>
          (\<forall>x. \<exists>g. \<forall>y. (x, y) \<in> (match_rel ms)\<^sup>+ \<longrightarrow>
             (x + 2, g) \<in> group_ids res \<and> (y + 2, g) \<in> group_ids res)"
      by blast
    have "detect_fuzzy_duplicates env df cols threshold weights cap ign = Some (Inr (res, ?w))"
      using ne cn k0 fm False c by (simp add: detect_fuzzy_duplicates_def Let_def)
    then show ?thesis using l s by blast
  qed
qed

lemma fuzzy_matches_total:
  assumes "set cols \<subseteq> set columns"
  shows "\<exists>st. fuzzy_matches env columns k0 work cols w threshold cap = Inr st"
  unfolding fuzzy_matches_def
  by (rule for_each_total) (rule compare_block_total [OF assms])

lemma oversized_big:
  assumes "0 \<le> cap" and "oversized cap b"
  shows "2 \<le> length b"
proof (rule ccontr)
  assume "\<not> 2 \<le> length b"
  then have "length b = 0 \<or> length b = 1" by linarith
  then have "length b * (length b - 1) div 2 = 0" by auto
  then show False using assms by (simp add: oversized_def)
qed

lemma compare_block_250:
  assumes "length block = 250"
  shows "compare_block env columns cols weights threshold 1000 block (ms, sk, fb)
           = Inr (ms, sk + 1, fb)"
  using assms by (simp add: compare_block_def Let_def)

lemma set_insert_by_score:
  "set (takeWhile P xs @ m # dropWhile P xs) = insert m (set xs)"
proof -
  have u: "set (takeWhile P xs) \<union> set (dropWhile P xs) = set xs"
    using arg_cong [OF takeWhile_dropWhile_id [of P xs], of set] by (simp only: set_append)
  have "set (takeWhile P xs @ m # dropWhile P xs)
        = insert m (set (takeWhile P xs) \<union> set (dropWhile P xs))"
    by (simp only: set_append list.set Un_insert_right)
  then show ?thesis unfolding u .
qed

lemma set_stable_sort_desc: "set (stable_sort_desc ms) = set ms"
  unfolding stable_sort_desc_def
  by (induction ms) (simp_all only: foldr.simps comp_apply id_apply set_insert_by_score list.set)

lemma runtime_ok_plain: "runtime_ok plain_runtime"
  by (simp add: runtime_ok_def plain_runtime_def set_stable_sort_desc)

text \<open>
  C7. With every fuzzy column present in the frame and a non-negative pair cap, the
  fuzzy run returns normally; the number of skipped blocks is the number of blocks whose
  pair count n * (n - 1) div 2 exceeds the cap; when it is not zero the warnings hold
  one entry reporting it; no accepted pair and no row of the returned duplicate frame
  comes from such a block. In particular a block of 250 rows under a cap of 1000 leaves
  the matches unchanged and raises the skipped counter by one.
\<close>

theorem oversized_blocks_are_skipped:
  assumes ok: "runtime_ok env"
    and dl: "distinct (map fst (df_rows df))"
    and ne: "cols \<noteq> []"
    and sub: "set cols \<subseteq> set (df_columns df)"
    and cap: "0 \<le> max_pairs_per_block"
    and k0: "column_pos (df_columns df) (hd cols) = Some k0"
  shows "\<exists>dup_df matches skipped fallback.
       fuzzy_matches env (df_columns df) k0 (fuzzy_work df cols ignore_nulls) cols
         (fuzzy_weights cols weights) threshold max_pairs_per_block
         = Inr (matches, skipped, fallback)
     \<and> detect_fuzzy_duplicates env df cols threshold weights max_pairs_per_block ignore_nulls =
         Some (Inr (dup_df,
           (if rapidfuzz env = None then [RapidFuzz_Not_Installed] else [])
           @ null_warnings df cols ignore_nulls
           @ block_warnings env max_pairs_per_block skipped fallback))
     \<and> skipped = length (filter (oversized max_pairs_per_block)
                   (blocks_of (df_columns df) k0 (fuzzy_work df cols ignore_nulls)))
     \<and> (skipped \<noteq> 0 \<longrightarrow>
          Blocks_Skipped skipped max_pairs_per_block
            \<in> set (block_warnings env max_pairs_per_block skipped fallback))
     \<and> (\<forall>b \<in> set (blocks_of (df_columns df) k0 (fuzzy_work df cols ignore_nulls)).
          oversized max_pairs_per_block b \<longrightarrow>
          (\<forall>(i, r) \<in> set b.
             (\<forall>(x, y, s) \<in> set matches. x \<noteq> i \<and> y \<noteq> i)
             \<and> i + 2 \<notin> dup_Row_Number ` set dup_df))
     \<and> (\<forall>block ms sk fb. length block = 250 \<longrightarrow>
          compare_block env (df_columns df) cols (fuzzy_weights cols weights) threshold 1000
            block (ms, sk, fb) = Inr (ms, sk + 1, fb))"
proof -
  let ?work = "fuzzy_work df cols ignore_nulls"
  let ?blocks = "blocks_of (df_columns df) k0 ?work"
  let ?cap = max_pairs_per_block
  from fuzzy_matches_total [OF sub] obtain st where
    "fuzzy_matches env (df_columns df) k0 ?work cols (fuzzy_weights cols weights) threshold ?cap
       = Inr st"
    by blast
  then obtain ms sk fb where
    fm: "fuzzy_matches env (df_columns df) k0 ?work cols (fuzzy_weights cols weights) threshold ?cap
       = Inr (ms, sk, fb)"
    by (cases st) auto
  note dw = fuzzy_work_distinct [OF dl, of cols ignore_nulls]
  from detect_fuzzy_run [OF ok ne k0 fm] obtain res where
    d: "detect_fuzzy_duplicates env df cols threshold weights ?cap ignore_nulls =
            Some (Inr (res,
              (if rapidfuzz env = None then [RapidFuzz_Not_Installed] else [])
              @ null_warnings df cols ignore_nulls @ block_warnings env ?cap sk fb))"
    and lab: "\<forall>d \<in> set res. \<exists>i j s. (i, j, s) \<in> set ms
            \<and> (dup_Row_Number d = i + 2 \<or> dup_Row_Number d = j + 2)"
    by blast
  have same: "(\<lambda>b. 2 \<le> length b \<and> oversized ?cap b) = oversized ?cap"
    using oversized_big [OF cap] by auto
  have sk: "sk = length (filter (oversized ?cap) ?blocks)"
    using fuzzy_matches_origin(1) [OF dw fm] unfolding same .
  have warn: "sk \<noteq> 0 \<longrightarrow> Blocks_Skipped sk ?cap \<in> set (block_warnings env ?cap sk fb)"
    by (simp add: block_warnings_def)
  have nomatch: "x \<noteq> i \<and> y \<noteq> i"
    if b: "b \<in> set ?blocks" and ov: "oversized ?cap b" and ir: "(i, r) \<in> set b"
      and m: "(x, y, s) \<in> set ms" for b i r x y s
  proof -
    from fuzzy_matches_origin(2) [OF dw fm m] obtain b' a c where
      b': "b' \<in> set ?blocks" and nb': "\<not> (2 \<le> length b' \<and> oversized ?cap b')"
      and xa: "(x, a) \<in> set b'" and yc: "(y, c) \<in> set b'"
      by blast
    have "b \<noteq> b'" using ov nb' oversized_big [OF cap ov] by auto
    then show ?thesis
      using blocks_of_disjoint [OF dw b b' ir] xa yc by blast
  qed
  have nores: "i + 2 \<notin> dup_Row_Number ` set res"
    if b: "b \<in> set ?blocks" and ov: "oversized ?cap b" and ir: "(i, r) \<in> set b" for b i r
  proof
    assume "i + 2 \<in> dup_Row_Number ` set res"
    then obtain d where "d \<in> set res" "dup_Row_Number d = i + 2" by auto
    with lab obtain x y s where "(x, y, s) \<in> set ms" "i + 2 = x + 2 \<or> i + 2 = y + 2"
      by metis
    then show False using nomatch [OF b ov ir, of x y s] by auto
  qed
  have last: "\<forall>b \<in> set ?blocks. oversized ?cap b \<longrightarrow>
          (\<forall>(i, r) \<in> set b.
             (\<forall>(x, y, s) \<in> set ms. x \<noteq> i \<and> y \<noteq> i) \<and> i + 2 \<notin> dup_Row_Number ` set res)"
    using nomatch nores by blast
  have sd: "\<forall>block ms sk fb. length block = 250 \<longrightarrow>
          compare_block env (df_columns df) cols (fuzzy_weights cols weights) threshold 1000
            block (ms, sk, fb) = Inr (ms, sk + 1, fb)"
    using compare_block_250 by blast
  show ?thesis
    by (intro exI [of _ res] exI [of _ ms] exI [of _ sk] exI [of _ fb] conjI fm d sk warn last sd)
qed


text \<open>
  C5. In a fuzzy run, with \<open>matches\<close> the accepted pairs of the comparison loop (the
  pairs that were compared and scored at or above the threshold): if A and B are joined
  by an accepted pair and B and C are, then A, B and C are in the returned frame with
  one Duplicate_Group_ID, whatever the pair A, C scores; and any two rows connected by a
  chain of accepted pairs share a group id.
\<close>

theorem fuzzy_groups_are_transitive:
  assumes ok: "runtime_ok env"
    and dl: "distinct (map fst (df_rows df))"
    and ne: "cols \<noteq> []"
    and k0: "column_pos (df_columns df) (hd cols) = Some k0"
    and fm: "fuzzy_matches env (df_columns df) k0 (fuzzy_work df cols ignore_nulls) cols
               (fuzzy_weights cols weights) threshold max_pairs_per_block
             = Inr (matches, skipped, fallback)"
  shows "\<exists>dup_df warnings.
       detect_fuzzy_duplicates env df cols threshold weights max_pairs_per_block ignore_nulls =
         Some (Inr (dup_df, warnings))
     \<and> (\<forall>a b c. (a, b) \<in> match_rel matches \<and> (b, c) \<in> match_rel matches \<longrightarrow>
           (\<exists>g. (a + 2, g) \<in> group_ids dup_df \<and> (b + 2, g) \<in> group_ids dup_df
                \<and> (c + 2, g) \<in> group_ids dup_df))
     \<and> (\<forall>x y. (x, y) \<in> (match_rel matches)\<^sup>+ \<longrightarrow>
           (\<exists>g. (x + 2, g) \<in> group_ids dup_df \<and> (y + 2, g) \<in> group_ids dup_df))"
proof -
  note dw = fuzzy_work_distinct [OF dl, of cols ignore_nulls]
  have neq: "\<forall>(i, j, s) \<in> set matches. i \<noteq> j"
    using fuzzy_matches_origin(2) [OF dw fm] by blast
  from detect_fuzzy_run [OF ok ne k0 fm] neq obtain res where
    d: "detect_fuzzy_duplicates env df cols threshold weights max_pairs_per_block ignore_nulls =
            Some (Inr (res,
              (if rapidfuzz env = None then [RapidFuzz_Not_Installed] else [])
              @ null_warnings df cols ignore_nulls
              @ block_warnings env max_pairs_per_block skipped fallback))"
    and sh: "\<forall>x. \<exists>g. \<forall>y. (x, y) \<in> (match_rel matches)\<^sup>+ \<longrightarrow>
             (x + 2, g) \<in> group_ids res \<and> (y + 2, g) \<in> group_ids res"
    by blast
  have t3: "\<exists>g. (a + 2, g) \<in> group_ids res \<and> (b + 2, g) \<in> group_ids res
                \<and> (c + 2, g) \<in> group_ids res"
    if ab: "(a, b) \<in> match_rel matches" and bc: "(b, c) \<in> match_rel matches" for a b c
  proof -
    from sh obtain g where g: "\<forall>y. (a, y) \<in> (match_rel matches)\<^sup>+ \<longrightarrow>
             (a + 2, g) \<in> group_ids res \<and> (y + 2, g) \<in> group_ids res"
      by blast
    have "(a, b) \<in> (match_rel matches)\<^sup>+" using ab by blast
    moreover have "(a, c) \<in> (match_rel matches)\<^sup>+" using ab bc by (meson trancl.simps)
    ultimately show ?thesis using g by blast
  qed
  have t2: "\<exists>g. (x + 2, g) \<in> group_ids res \<and> (y + 2, g) \<in> group_ids res"
    if "(x, y) \<in> (match_rel matches)\<^sup>+" for x y
    using sh that by blast
  show ?thesis
    using d t3 t2 by blast
qed

end
